theory Spec2Isabelle
  imports Complex_Main "HOL-Library.Sublist"
begin

section \<open>Tabular data\<close>

text \<open>
  The script works on pandas data frames read from CSV files. A frame is modelled the way
  pandas stores it: a row index (one label per row) and an ordered list of named columns,
  each column holding one cell per row together with its dtype flag (categorical or not).
  A cell is either missing (\<open>NA\<close>, pandas' NaN) or an integer code; every column of the
  credit-card data set is integer valued. Column labels are looked up by their first
  occurrence; the frames of interest have pairwise distinct labels.

  The frame operations the script calls belong to pandas, which is not part of the
  repository's sources. Each is written out below as it behaves on such frames, with the
  exception it raises as an error value.
\<close>

datatype cell = NA | Num int

record column =
  vals :: "cell list"
  category :: bool

record dataframe =
  df_index :: "nat list"
  df_columns :: "(string \<times> column) list"

record series =
  s_index :: "nat list"
  s_vals :: "cell list"
  s_category :: bool

datatype error =
    KeyError string
  | ValueError
  | IndexError
  | FileNotFoundError
  | FileExistsError
  | NotADirectoryError
  | IsADirectoryError

definition column_names :: "dataframe \<Rightarrow> string list" where
  "column_names df = map fst (df_columns df)"

definition nrows :: "dataframe \<Rightarrow> nat" where
  "nrows df = length (df_index df)"

text \<open>A frame is well formed when every column has exactly one cell per row.\<close>

definition wf_df :: "dataframe \<Rightarrow> bool" where
  "wf_df df = list_all (\<lambda>(n, c). length (vals c) = nrows df) (df_columns df)"

text \<open>
  Modelled from the spec: pandas' \<^verbatim>\<open>df.rename(columns=mapper)\<close>, which renames the
  columns the mapper names and ignores the labels absent from the frame.
\<close>

definition rename :: "(string \<times> string) list \<Rightarrow> dataframe \<Rightarrow> dataframe" where
  "rename mapper df =
     df\<lparr>df_columns :=
          map (\<lambda>(n, c). (case map_of mapper n of None \<Rightarrow> n | Some n' \<Rightarrow> n', c))
            (df_columns df)\<rparr>"

text \<open>
  Modelled from the spec: pandas' \<^verbatim>\<open>df.drop(columns=labels)\<close>, which removes the named
  columns and raises KeyError for a label that is not a column.
\<close>

definition drop_columns :: "string list \<Rightarrow> dataframe \<Rightarrow> error + dataframe" where
  "drop_columns labels df =
     (case filter (\<lambda>l. l \<notin> set (column_names df)) labels of
        [] \<Rightarrow> Inr (df\<lparr>df_columns := filter (\<lambda>(n, c). n \<notin> set labels) (df_columns df)\<rparr>)
      | l # _ \<Rightarrow> Inl (KeyError l))"

text \<open>
  Modelled from the spec: selection by a boolean mask, which keeps the entries at which the
  mask holds, in their order.
\<close>

definition boolean_index :: "bool list \<Rightarrow> 'a list \<Rightarrow> 'a list" where
  "boolean_index msk xs = map snd (filter fst (zip msk xs))"

definition take_rows :: "bool list \<Rightarrow> dataframe \<Rightarrow> dataframe" where
  "take_rows msk df =
     \<lparr>df_index = boolean_index msk (df_index df),
      df_columns = map (\<lambda>(n, c). (n, c\<lparr>vals := boolean_index msk (vals c)\<rparr>)) (df_columns df)\<rparr>"

text \<open>
  Modelled from the spec: pandas' \<^verbatim>\<open>df[mask]\<close> with a boolean mask, which needs one
  entry per row and returns a new frame.
\<close>

definition getitem_mask :: "bool list \<Rightarrow> dataframe \<Rightarrow> error + dataframe" where
  "getitem_mask msk df =
     (if length msk = nrows df then Inr (take_rows msk df) else Inl ValueError)"

text \<open>
  Modelled from the spec: pandas' \<^verbatim>\<open>df.dropna()\<close>, which keeps the rows none of whose
  cells is missing.
\<close>

definition notna_row :: "dataframe \<Rightarrow> nat \<Rightarrow> bool" where
  "notna_row df p = list_all (\<lambda>(n, c). vals c ! p \<noteq> NA) (df_columns df)"

definition dropna :: "dataframe \<Rightarrow> dataframe" where
  "dropna df = take_rows (map (notna_row df) [0..<nrows df]) df"

text \<open>
  Modelled from the spec: pandas' \<^verbatim>\<open>df[name]\<close>, the column as a series sharing the
  frame's index; KeyError when there is no such column.
\<close>

definition getitem :: "string \<Rightarrow> dataframe \<Rightarrow> error + series" where
  "getitem name df =
     (case map_of (df_columns df) name of
        None \<Rightarrow> Inl (KeyError name)
      | Some c \<Rightarrow> Inr \<lparr>s_index = df_index df, s_vals = vals c, s_category = category c\<rparr>)"

text \<open>
  Modelled from the spec: pandas' \<^verbatim>\<open>ser != k\<close>, elementwise; a missing value differs
  from every number.
\<close>

definition ne_scalar :: "series \<Rightarrow> int \<Rightarrow> bool list" where
  "ne_scalar ser k = map (\<lambda>v. v \<noteq> Num k) (s_vals ser)"

text \<open>Modelled from the spec: pandas' \<^verbatim>\<open>a & b\<close> on two masks over the same index.\<close>

definition mask_and :: "bool list \<Rightarrow> bool list \<Rightarrow> bool list" where
  "mask_and a b = map2 (\<and>) a b"

text \<open>
  Modelled from the spec: pandas' \<^verbatim>\<open>ser.apply(f)\<close>, which maps the function over the
  values, and \<^verbatim>\<open>ser.astype("category")\<close>, which marks the series categorical.
\<close>

definition series_apply :: "(cell \<Rightarrow> cell) \<Rightarrow> series \<Rightarrow> series" where
  "series_apply f ser = ser\<lparr>s_vals := map f (s_vals ser), s_category := False\<rparr>"

definition astype_category :: "series \<Rightarrow> series" where
  "astype_category ser = ser\<lparr>s_category := True\<rparr>"

text \<open>
  The anonymous function applied to the education column,
  \<^verbatim>\<open>lambda x: 4 if x >= 4 else x\<close>, named after the docstring; the comparison of a
  missing value with 4 is false.
\<close>

definition agrupar :: "cell \<Rightarrow> cell" where
  "agrupar x = (case x of NA \<Rightarrow> NA | Num v \<Rightarrow> if v \<ge> 4 then Num 4 else Num v)"

text \<open>
  Modelled from the spec: pandas' \<^verbatim>\<open>df[name] = ser\<close>, which replaces the column where
  it stands, or appends a new one, in the frame itself.
\<close>

definition setitem :: "string \<Rightarrow> series \<Rightarrow> dataframe \<Rightarrow> dataframe" where
  "setitem name ser df =
     (let c = \<lparr>vals = s_vals ser, category = s_category ser\<rparr> in
      if name \<in> set (column_names df)
      then df\<lparr>df_columns := map (\<lambda>(n, c0). if n = name then (n, c) else (n, c0)) (df_columns df)\<rparr>
      else df\<lparr>df_columns := df_columns df @ [(name, c)]\<rparr>)"

section \<open>The data cleaner\<close>

text \<open>
  Frames are objects: a variable holds a reference into a store of frames, \<open>copy\<close>,
  \<open>rename\<close>, \<open>drop\<close>, \<open>dropna\<close> and mask selection allocate a new frame, and item assignment
  updates the frame a variable refers to in place. A raised exception leaves the store as
  it is at that point.
\<close>

type_synonym store = "dataframe list"

definition alloc :: "dataframe \<Rightarrow> store \<Rightarrow> nat \<times> store" where
  "alloc d s = (length s, s @ [d])"

text \<open>
  A step that may raise: the exception ends the run with the store as it is, a value goes
  on to the rest of the function body.
\<close>

definition or_raise ::
  "error + 'a \<Rightarrow> 's \<Rightarrow> ('a \<Rightarrow> (error + 'b) \<times> 's) \<Rightarrow> (error + 'b) \<times> 's" where
  "or_raise m s k = (case m of Inl e \<Rightarrow> (Inl e, s) | Inr v \<Rightarrow> k v)"

definition limpiarDatos :: "nat \<Rightarrow> store \<Rightarrow> (error + (nat \<times> nat \<times> series)) \<times> store" where
  "limpiarDatos r s0 =
    (let (df1, s1) = alloc (s0 ! r) s0;
         (df2, s2) = alloc (rename [(''default payment next month'', ''default'')] (s1 ! df1)) s1
     in or_raise (drop_columns [''ID''] (s2 ! df2)) s2 (\<lambda>d3.
     let (df3, s3) = alloc d3 s2;
         (df4, s4) = alloc (dropna (s3 ! df3)) s3
     in or_raise (getitem ''EDUCATION'' (s4 ! df4)) s4 (\<lambda>edu.
        or_raise (getitem ''MARRIAGE'' (s4 ! df4)) s4 (\<lambda>mar.
        or_raise (getitem_mask (mask_and (ne_scalar edu 0) (ne_scalar mar 0)) (s4 ! df4)) s4 (\<lambda>d5.
     let (df5, s5) = alloc d5 s4
     in or_raise (getitem ''EDUCATION'' (s5 ! df5)) s5 (\<lambda>edu5.
     let s6 = s5[df5 := setitem ''EDUCATION'' (astype_category (series_apply agrupar edu5)) (s5 ! df5)]
     in or_raise (drop_columns [''default''] (s6 ! df5)) s6 (\<lambda>dx.
     let (x, s7) = alloc dx s6
     in or_raise (getitem ''default'' (s7 ! df5)) s7 (\<lambda>y.
        (Inr (df5, x, y), s7)))))))))"

section \<open>Records of a data set\<close>

text \<open>
  The specification speaks of a Dataset as an ordered collection of Records. The record
  at row position \<open>p\<close> of a frame is its row label together with its named cells, in column
  order.
\<close>

type_synonym row = "nat \<times> (string \<times> cell) list"

definition row_at :: "dataframe \<Rightarrow> nat \<Rightarrow> row" where
  "row_at df p = (df_index df ! p, map (\<lambda>(n, c). (n, vals c ! p)) (df_columns df))"

definition rows_of :: "dataframe \<Rightarrow> row list" where
  "rows_of df = map (row_at df) [0..<nrows df]"

definition cell_at :: "dataframe \<Rightarrow> string \<Rightarrow> nat \<Rightarrow> cell option" where
  "cell_at df name p = map_option (\<lambda>c. vals c ! p) (map_of (df_columns df) name)"

text \<open>
  The raw frames the cleaner expects: well formed, with pairwise distinct column labels,
  holding the identifier, the two coded attributes and the verbosely named label column,
  and no column already called \<open>default\<close>.
\<close>

definition expected_columns :: "dataframe \<Rightarrow> bool" where
  "expected_columns df \<longleftrightarrow>
     wf_df df \<and> distinct (column_names df) \<and>
     ''ID'' \<in> set (column_names df) \<and>
     ''EDUCATION'' \<in> set (column_names df) \<and>
     ''MARRIAGE'' \<in> set (column_names df) \<and>
     ''default payment next month'' \<in> set (column_names df) \<and>
     ''default'' \<notin> set (column_names df)"

subsection \<open>The cleaning steps as the specification words them\<close>

text \<open>Step 1: rename the label column from its verbose source name to \<open>default\<close>.\<close>

definition spec_rename_label :: "row list \<Rightarrow> row list" where
  "spec_rename_label =
     map (\<lambda>(i, cs). (i, map (\<lambda>(n, v). (if n = ''default payment next month'' then ''default'' else n, v)) cs))"

text \<open>Step 2: drop the row-identifier column.\<close>

definition spec_drop_id :: "row list \<Rightarrow> row list" where
  "spec_drop_id = map (\<lambda>(i, cs). (i, filter (\<lambda>(n, v). n \<noteq> ''ID'') cs))"

text \<open>Step 3: drop every row containing any missing value in any column.\<close>

definition spec_drop_missing :: "row list \<Rightarrow> row list" where
  "spec_drop_missing = filter (\<lambda>(i, cs). list_all (\<lambda>(n, v). v \<noteq> NA) cs)"

text \<open>Step 4: drop every row where the education code or the marital-status code equals 0.\<close>

definition spec_drop_code0 :: "row list \<Rightarrow> row list" where
  "spec_drop_code0 =
     filter (\<lambda>(i, cs). \<not> (map_of cs ''EDUCATION'' = Some (Num 0) \<or> map_of cs ''MARRIAGE'' = Some (Num 0)))"

text \<open>Step 5: collapse education codes from 4 upwards into the code 4; lower codes pass.\<close>

definition spec_collapse :: "cell \<Rightarrow> cell" where
  "spec_collapse v = (case v of NA \<Rightarrow> NA | Num e \<Rightarrow> Num (if 4 \<le> e then 4 else e))"

definition spec_collapse_education :: "row list \<Rightarrow> row list" where
  "spec_collapse_education =
     map (\<lambda>(i, cs). (i, map (\<lambda>(n, v). (n, if n = ''EDUCATION'' then spec_collapse v else v)) cs))"

text \<open>Step 6: X is every column except \<open>default\<close>, y is the \<open>default\<close> column, row by row.\<close>

definition spec_features :: "row list \<Rightarrow> row list" where
  "spec_features = map (\<lambda>(i, cs). (i, filter (\<lambda>(n, v). n \<noteq> ''default'') cs))"

definition spec_labels :: "row list \<Rightarrow> (nat \<times> cell option) list" where
  "spec_labels = map (\<lambda>(i, cs). (i, map_of cs ''default''))"

definition spec_clean :: "row list \<Rightarrow> row list" where
  "spec_clean rs =
     spec_collapse_education (spec_drop_code0 (spec_drop_missing (spec_drop_id (spec_rename_label rs))))"

section \<open>The metrics of the library\<close>

text \<open>
  Modelled from the spec: the scoring functions \<^verbatim>\<open>precision_score\<close>, \<^verbatim>\<open>recall_score\<close>,
  \<^verbatim>\<open>f1_score\<close>, \<^verbatim>\<open>balanced_accuracy_score\<close> and \<^verbatim>\<open>confusion_matrix\<close> belong to
  scikit-learn and are not part of the repository's sources. They are modelled by their
  documented contract for label vectors of integers, with the positive class 1 and the
  binary average the script leaves as defaults. A score is a float; the quotient of two
  counts is kept as an exact rational, the rounding of the division is not modelled, and
  the one float that is not a number is kept apart.
\<close>

datatype score = NaN | Float rat

text \<open>
  Modelled from the spec: the \<^verbatim>\<open>zero_division\<close> argument of the scores, either the
  default (warn, and take 0) or the value to return by a zero denominator.
\<close>

datatype zero_division = ZD_warn | ZD_value score

text \<open>
  Modelled from the spec: the sorted classes that occur in either vector, and the number of
  rows whose pair of true and predicted class satisfies a condition.
\<close>

definition unique_labels :: "int list \<Rightarrow> int list \<Rightarrow> int list" where
  "unique_labels y_true y_pred = sort (remdups (y_true @ y_pred))"

definition count_pairs :: "int list \<Rightarrow> int list \<Rightarrow> (int \<Rightarrow> int \<Rightarrow> bool) \<Rightarrow> nat" where
  "count_pairs y_true y_pred P = length (filter (\<lambda>(t, p). P t p) (zip y_true y_pred))"

text \<open>
  Modelled from the spec: the check of the targets of a binary score, which wants both
  vectors of one length, at most two classes between them, and the positive class among
  them when there are two; ValueError otherwise.
\<close>

definition check_binary_targets :: "int list \<Rightarrow> int list \<Rightarrow> error + unit" where
  "check_binary_targets y_true y_pred =
     (if length y_true \<noteq> length y_pred then Inl ValueError
      else let present = unique_labels y_true y_pred in
        if 2 < length present then Inl ValueError
        else if 1 \<notin> set present \<and> 2 \<le> length present then Inl ValueError
        else Inr ())"

text \<open>
  Modelled from the spec: a quotient of counts, which by a zero denominator is the
  \<^verbatim>\<open>zero_division\<close> value.
\<close>

definition prf_divide :: "nat \<Rightarrow> nat \<Rightarrow> zero_division \<Rightarrow> score" where
  "prf_divide num den zd =
     (if den = 0 then (case zd of ZD_warn \<Rightarrow> Float 0 | ZD_value v \<Rightarrow> v)
      else Float (of_nat num / of_nat den))"

definition true_pos :: "int list \<Rightarrow> int list \<Rightarrow> nat" where
  "true_pos y_true y_pred = count_pairs y_true y_pred (\<lambda>t p. t = 1 \<and> p = 1)"

definition false_pos :: "int list \<Rightarrow> int list \<Rightarrow> nat" where
  "false_pos y_true y_pred = count_pairs y_true y_pred (\<lambda>t p. t \<noteq> 1 \<and> p = 1)"

definition false_neg :: "int list \<Rightarrow> int list \<Rightarrow> nat" where
  "false_neg y_true y_pred = count_pairs y_true y_pred (\<lambda>t p. t = 1 \<and> p \<noteq> 1)"

text \<open>Sequencing of steps that may raise.\<close>

definition ebind :: "error + 'a \<Rightarrow> ('a \<Rightarrow> error + 'b) \<Rightarrow> error + 'b" where
  "ebind m k = (case m of Inl e \<Rightarrow> Inl e | Inr v \<Rightarrow> k v)"

text \<open>
  Modelled from the spec: scikit-learn's \<^verbatim>\<open>precision_score\<close>, \<^verbatim>\<open>recall_score\<close> and
  \<^verbatim>\<open>f1_score\<close> for the positive class 1: true positives over predicted positives, over
  actual positives, and twice the true positives over the sum of predicted and actual
  positives.
\<close>

definition precision_score :: "int list \<Rightarrow> int list \<Rightarrow> zero_division \<Rightarrow> error + score" where
  "precision_score y_true y_pred zd =
     ebind (check_binary_targets y_true y_pred) (\<lambda>_.
       Inr (prf_divide (true_pos y_true y_pred)
              (true_pos y_true y_pred + false_pos y_true y_pred) zd))"

definition recall_score :: "int list \<Rightarrow> int list \<Rightarrow> zero_division \<Rightarrow> error + score" where
  "recall_score y_true y_pred zd =
     ebind (check_binary_targets y_true y_pred) (\<lambda>_.
       Inr (prf_divide (true_pos y_true y_pred)
              (true_pos y_true y_pred + false_neg y_true y_pred) zd))"

definition f1_score :: "int list \<Rightarrow> int list \<Rightarrow> zero_division \<Rightarrow> error + score" where
  "f1_score y_true y_pred zd =
     ebind (check_binary_targets y_true y_pred) (\<lambda>_.
       Inr (prf_divide (2 * true_pos y_true y_pred)
              (2 * true_pos y_true y_pred + false_neg y_true y_pred + false_pos y_true y_pred) zd))"

text \<open>
  Modelled from the spec: scikit-learn's \<^verbatim>\<open>confusion_matrix\<close> without the \<^verbatim>\<open>labels\<close>
  argument, the matrix over the sorted classes that occur in either vector: entry
  \<open>(i, j)\<close> counts the rows whose true class is the \<open>i\<close>-th and whose predicted class is the
  \<open>j\<close>-th.
\<close>

definition confusion_matrix :: "int list \<Rightarrow> int list \<Rightarrow> error + nat list list" where
  "confusion_matrix y_true y_pred =
     (if length y_true \<noteq> length y_pred then Inl ValueError
      else let labels = unique_labels y_true y_pred in
        Inr (map (\<lambda>a. map (\<lambda>b. count_pairs y_true y_pred (\<lambda>t p. t = a \<and> p = b)) labels) labels))"

text \<open>
  Modelled from the spec: scikit-learn's \<^verbatim>\<open>balanced_accuracy_score\<close>, the mean of the
  recalls of the classes that occur among the true labels; the mean of no recall at all
  is not a number.
\<close>

definition mean_score :: "rat list \<Rightarrow> score" where
  "mean_score xs = (if xs = [] then NaN else Float (sum_list xs / of_nat (length xs)))"

definition balanced_accuracy_score :: "int list \<Rightarrow> int list \<Rightarrow> error + score" where
  "balanced_accuracy_score y_true y_pred =
     ebind (confusion_matrix y_true y_pred) (\<lambda>cm.
       Inr (mean_score
              (map (\<lambda>i. of_nat (cm ! i ! i) / of_nat (sum_list (cm ! i)))
                 (filter (\<lambda>i. sum_list (cm ! i) \<noteq> 0) [0..<length cm]))))"

section \<open>The metrics reporter\<close>

text \<open>
  A fitted model is an object with a \<open>predict\<close> method: from a feature table and the
  state of the object it yields the predicted labels and the state afterwards.
\<close>

type_synonym ('x, 'st) predictor = "'x \<Rightarrow> 'st \<Rightarrow> int list \<times> 'st"

record metrics_record =
  m_type :: string
  m_dataset :: string
  m_precision :: score
  m_balanced_accuracy :: score
  m_recall :: score
  m_f1_score :: score

definition metricas ::
  "('x, 'st) predictor \<Rightarrow> 'x \<Rightarrow> int list \<Rightarrow> 'x \<Rightarrow> int list \<Rightarrow> 'st \<Rightarrow>
     (error + metrics_record \<times> metrics_record) \<times> 'st" where
  "metricas predict x_train y_train x_test y_test st0 =
    (let (y_train_pred, st1) = predict x_train st0;
         (y_test_pred, st2) = predict x_test st1
     in or_raise (precision_score y_train y_train_pred (ZD_value (Float 0))) st2 (\<lambda>p_train.
        or_raise (balanced_accuracy_score y_train y_train_pred) st2 (\<lambda>b_train.
        or_raise (recall_score y_train y_train_pred (ZD_value (Float 0))) st2 (\<lambda>r_train.
        or_raise (f1_score y_train y_train_pred (ZD_value (Float 0))) st2 (\<lambda>f_train.
        let metricasTrain =
              \<lparr>m_type = ''metrics'', m_dataset = ''train'', m_precision = p_train,
               m_balanced_accuracy = b_train, m_recall = r_train, m_f1_score = f_train\<rparr>
        in
        or_raise (precision_score y_test y_test_pred (ZD_value (Float 0))) st2 (\<lambda>p_test.
        or_raise (balanced_accuracy_score y_test y_test_pred) st2 (\<lambda>b_test.
        or_raise (recall_score y_test y_test_pred (ZD_value (Float 0))) st2 (\<lambda>r_test.
        or_raise (f1_score y_test y_test_pred (ZD_value (Float 0))) st2 (\<lambda>f_test.
        let metricasTest =
              \<lparr>m_type = ''metrics'', m_dataset = ''test'', m_precision = p_test,
               m_balanced_accuracy = b_test, m_recall = r_test, m_f1_score = f_test\<rparr>
        in (Inr (metricasTrain, metricasTest), st2))))))))))"

text \<open>
  Modelled from the spec: numpy's \<^verbatim>\<open>cm[i, j]\<close> followed by \<^verbatim>\<open>int\<close>; an index outside
  the matrix raises IndexError.
\<close>

definition cm_getitem :: "nat list list \<Rightarrow> nat \<Rightarrow> nat \<Rightarrow> error + int" where
  "cm_getitem cm i j =
     (if i < length cm \<and> j < length (cm ! i) then Inr (int (cm ! i ! j)) else Inl IndexError)"

record cm_row =
  predicted_0 :: int
  predicted_1 :: int

record cm_record =
  cm_type :: string
  cm_dataset :: string
  true_0 :: cm_row
  true_1 :: cm_row

definition matrizConfusion ::
  "('x, 'st) predictor \<Rightarrow> 'x \<Rightarrow> int list \<Rightarrow> 'x \<Rightarrow> int list \<Rightarrow> 'st \<Rightarrow>
     (error + cm_record \<times> cm_record) \<times> 'st" where
  "matrizConfusion predict x_train y_train x_test y_test st0 =
    (let (y_train_pred, st1) = predict x_train st0;
         (y_test_pred, st2) = predict x_test st1
     in or_raise (confusion_matrix y_train y_train_pred) st2 (\<lambda>cm_train.
        or_raise (confusion_matrix y_test y_test_pred) st2 (\<lambda>cm_test.
        or_raise (cm_getitem cm_train 0 0) st2 (\<lambda>a00.
        or_raise (cm_getitem cm_train 0 1) st2 (\<lambda>a01.
        or_raise (cm_getitem cm_train 1 0) st2 (\<lambda>a10.
        or_raise (cm_getitem cm_train 1 1) st2 (\<lambda>a11.
        let cm_metrics_train =
              \<lparr>cm_type = ''cm_matrix'', cm_dataset = ''train'',
               true_0 = \<lparr>predicted_0 = a00, predicted_1 = a01\<rparr>,
               true_1 = \<lparr>predicted_0 = a10, predicted_1 = a11\<rparr>\<rparr>
        in
        or_raise (cm_getitem cm_test 0 0) st2 (\<lambda>b00.
        or_raise (cm_getitem cm_test 0 1) st2 (\<lambda>b01.
        or_raise (cm_getitem cm_test 1 0) st2 (\<lambda>b10.
        or_raise (cm_getitem cm_test 1 1) st2 (\<lambda>b11.
        let cm_metrics_test =
              \<lparr>cm_type = ''cm_matrix'', cm_dataset = ''test'',
               true_0 = \<lparr>predicted_0 = b00, predicted_1 = b01\<rparr>,
               true_1 = \<lparr>predicted_0 = b10, predicted_1 = b11\<rparr>\<rparr>
        in (Inr (cm_metrics_train, cm_metrics_test), st2))))))))))))"

section \<open>The persistence writer\<close>

text \<open>
  The file system as the writer sees it: the directories that exist and the contents of
  the regular files, both under the path as written (the paths of the script have no
  empty, \<^verbatim>\<open>.\<close> or \<^verbatim>\<open>..\<close> component). A relative path without a directory part lies in
  the working directory, which exists.
\<close>

record filesystem =
  fs_dirs :: "string set"
  fs_files :: "string \<rightharpoonup> string"

definition rstrip_slash :: "string \<Rightarrow> string" where
  "rstrip_slash p = rev (dropWhile (\<lambda>c. c = CHR ''/'') (rev p))"

text \<open>
  Modelled from the spec: \<^verbatim>\<open>os.path.split\<close> and \<^verbatim>\<open>os.path.dirname\<close> of the POSIX path
  module, and the tests \<^verbatim>\<open>os.path.exists\<close> and \<^verbatim>\<open>os.path.isdir\<close>.
\<close>

definition path_split :: "string \<Rightarrow> string \<times> string" where
  "path_split p =
     (let tail = rev (takeWhile (\<lambda>c. c \<noteq> CHR ''/'') (rev p));
          head = rev (dropWhile (\<lambda>c. c \<noteq> CHR ''/'') (rev p))
      in (if head \<noteq> [] \<and> \<not> list_all (\<lambda>c. c = CHR ''/'') head then rstrip_slash head else head,
          tail))"

definition dirname :: "string \<Rightarrow> string" where
  "dirname p = fst (path_split p)"

definition path_exists :: "filesystem \<Rightarrow> string \<Rightarrow> bool" where
  "path_exists fs p \<longleftrightarrow> p \<noteq> [] \<and> (p \<in> fs_dirs fs \<or> fs_files fs p \<noteq> None)"

definition path_isdir :: "filesystem \<Rightarrow> string \<Rightarrow> bool" where
  "path_isdir fs p \<longleftrightarrow> p \<noteq> [] \<and> p \<in> fs_dirs fs"

definition parent_ok :: "filesystem \<Rightarrow> string \<Rightarrow> error + unit" where
  "parent_ok fs p =
     (let d = dirname p in
      if d = [] \<or> list_all (\<lambda>c. c = CHR ''/'') d \<or> path_isdir fs d then Inr ()
      else if fs_files fs d \<noteq> None then Inl NotADirectoryError
      else Inl FileNotFoundError)"

text \<open>
  Modelled from the spec: \<^verbatim>\<open>os.mkdir\<close>, for which the path must be new and its parent
  an existing directory.
\<close>

definition mkdir :: "string \<Rightarrow> filesystem \<Rightarrow> error + filesystem" where
  "mkdir p fs =
     (if p = [] then Inl FileNotFoundError
      else if path_exists fs p then Inl FileExistsError
      else ebind (parent_ok fs p) (\<lambda>_. Inr (fs\<lparr>fs_dirs := insert p (fs_dirs fs)\<rparr>)))"

text \<open>
  Modelled from the spec: \<^verbatim>\<open>os.makedirs(name, exist_ok=True)\<close>, which makes the missing
  ancestors first and the leaf last, and accepts a leaf that is already a directory. The
  two lemmas give the termination of its recursion: the head of a path is shorter than
  the path.
\<close>

lemma path_split_le: "path_split p = (h, t) \<Longrightarrow> length h \<le> length p"
proof -
  assume ps: "path_split p = (h, t)"
  have "length (dropWhile (\<lambda>c. c = CHR ''/'') xs) \<le> length xs" for xs :: string
    by (rule length_dropWhile_le)
  moreover have "length (dropWhile (\<lambda>c. c \<noteq> CHR ''/'') (rev p)) \<le> length p"
    using length_dropWhile_le [of _ "rev p"] by simp
  ultimately show ?thesis
    using ps le_trans by (fastforce simp: path_split_def rstrip_slash_def Let_def split: if_splits)
qed

lemma path_split_less: "path_split p = (h, t) \<Longrightarrow> t \<noteq> [] \<Longrightarrow> length h < length p"
proof -
  assume ps: "path_split p = (h, t)" and t: "t \<noteq> []"
  let ?P = "\<lambda>c. c \<noteq> CHR ''/''"
  have "length (takeWhile ?P (rev p) @ dropWhile ?P (rev p)) = length p"
    by (simp only: takeWhile_dropWhile_id length_rev)
  then have "length (takeWhile ?P (rev p)) + length (dropWhile ?P (rev p)) = length p"
    by (simp only: length_append)
  moreover from ps t have "takeWhile ?P (rev p) \<noteq> []"
    by (auto simp: path_split_def Let_def)
  ultimately have less: "length (dropWhile ?P (rev p)) < length p"
    by (cases "takeWhile ?P (rev p)") auto
  have "length (dropWhile (\<lambda>c. c = CHR ''/'') xs) \<le> length xs" for xs :: string
    by (rule length_dropWhile_le)
  from this [of "dropWhile ?P (rev p)"] less ps show ?thesis
    by (auto simp: path_split_def rstrip_slash_def Let_def split: if_splits)
qed

function makedirs :: "string \<Rightarrow> filesystem \<Rightarrow> (error + unit) \<times> filesystem" where
  "makedirs name fs =
     (let (head, tail) = path_split name;
          (head, tail) = (if tail = [] then path_split head else (head, tail));
          (res, fs1) =
            (if head \<noteq> [] \<and> tail \<noteq> [] \<and> \<not> path_exists fs head
             then (case makedirs head fs of
                     (Inl FileExistsError, fs') \<Rightarrow> (Inr (), fs')
                   | other \<Rightarrow> other)
             else (Inr (), fs))
      in case res of
           Inl e \<Rightarrow> (Inl e, fs1)
         | Inr _ \<Rightarrow>
             if head \<noteq> [] \<and> tail \<noteq> [] \<and> \<not> path_exists fs head \<and> tail = ''.'' then (Inr (), fs1)
             else (case mkdir name fs1 of
                     Inr fs2 \<Rightarrow> (Inr (), fs2)
                   | Inl e \<Rightarrow> if path_isdir fs1 name then (Inr (), fs1) else (Inl e, fs1)))"
  by pat_completeness auto
termination
  apply (relation "measure (\<lambda>(name, fs). length name)")
   apply simp
  apply (auto split: if_splits)
  subgoal by (metis path_split_le path_split_less order.strict_trans2)
  subgoal by (metis path_split_less)
  done

declare makedirs.simps [simp del]

text \<open>
  Modelled from the spec: \<^verbatim>\<open>open(path, "w")\<close>, which creates the file or empties it, and
  \<^verbatim>\<open>f.write\<close>, which appends to it.
\<close>

definition open_w :: "string \<Rightarrow> filesystem \<Rightarrow> error + filesystem" where
  "open_w p fs =
     (if p = [] then Inl FileNotFoundError
      else if path_isdir fs p then Inl IsADirectoryError
      else ebind (parent_ok fs p) (\<lambda>_. Inr (fs\<lparr>fs_files := (fs_files fs)(p \<mapsto> [])\<rparr>)))"

definition write_file :: "string \<Rightarrow> string \<Rightarrow> filesystem \<Rightarrow> filesystem" where
  "write_file p txt fs =
     fs\<lparr>fs_files := (fs_files fs)(p \<mapsto> (case fs_files fs p of None \<Rightarrow> txt | Some old \<Rightarrow> old @ txt))\<rparr>"

text \<open>
  The writer. \<^verbatim>\<open>json.dumps\<close> belongs to the standard library and is a parameter: it renders
  one record as text.
\<close>

definition guardarMetricas ::
  "('a \<Rightarrow> string) \<Rightarrow> 'a \<Rightarrow> 'a \<Rightarrow> 'a \<Rightarrow> 'a \<Rightarrow> string \<Rightarrow> filesystem \<Rightarrow> (error + unit) \<times> filesystem" where
  "guardarMetricas dumps metrics_train metrics_test cm_metrics_train cm_metrics_test file_path fs0 =
    (case makedirs (dirname file_path) fs0 of
       (Inl e, fs1) \<Rightarrow> (Inl e, fs1)
     | (Inr _, fs1) \<Rightarrow>
         let metricas_totales = [metrics_train, metrics_test, cm_metrics_train, cm_metrics_test]
         in or_raise (open_w file_path fs1) fs1 (\<lambda>fs2.
              (Inr (), foldl (\<lambda>fs metrica. write_file file_path (dumps metrica @ [CHR 0x0A]) fs)
                         fs2 metricas_totales)))"

text \<open>The default of the parameter \<^verbatim>\<open>file_path\<close>.\<close>

definition metrics_path :: string where
  "metrics_path = ''files/output/metrics.json''"

text \<open>The lines of a text, as \<^verbatim>\<open>str.splitlines\<close> yields them for the line feed.\<close>

definition splitlines :: "string \<Rightarrow> string list" where
  "splitlines txt =
     foldr (\<lambda>c acc. if c = CHR 0x0A then [] # acc
                     else (case acc of [] \<Rightarrow> [[c]] | l # ls \<Rightarrow> (c # l) # ls)) txt []"

text \<open>
  Abbreviations used in the proofs: the renaming of one label, the row test of step 4, and
  the five steps fused into one test and one transformation per record.
\<close>

definition rn :: "string \<Rightarrow> string" where
  "rn n = (if n = ''default payment next month'' then ''default'' else n)"

definition code_known :: "row \<Rightarrow> bool" where
  "code_known rw \<longleftrightarrow>
     \<not> (map_of (snd rw) ''EDUCATION'' = Some (Num 0) \<or> map_of (snd rw) ''MARRIAGE'' = Some (Num 0))"

definition keeps_row :: "row \<Rightarrow> bool" where
  "keeps_row rw \<longleftrightarrow>
     list_all (\<lambda>(n, v). v \<noteq> NA) (filter (\<lambda>(n, v). n \<noteq> ''ID'') (snd rw)) \<and> code_known rw"

definition clean_row :: "row \<Rightarrow> row" where
  "clean_row rw =
     (fst rw,
      map (\<lambda>(n, v). (n, if n = ''EDUCATION'' then spec_collapse v else v))
        (filter (\<lambda>(n, v). n \<noteq> ''ID'') (map (\<lambda>(n, v). (rn n, v)) (snd rw))))"

text \<open>
  A small raw frame used to run the cleaner: row 1 has education code 0, row 2 misses only
  its identifier, row 3 misses its credit limit, row 4 has marital-status code 0, rows 2
  and 5 have education codes above 4.
\<close>

definition raw_example :: dataframe where
  "raw_example =
     \<lparr>df_index = [0, 1, 2, 3, 4, 5],
      df_columns =
        [(''ID'', \<lparr>vals = [Num 1, Num 2, NA, Num 4, Num 5, Num 6], category = False\<rparr>),
         (''LIMIT_BAL'', \<lparr>vals = [Num 100, Num 200, Num 300, NA, Num 500, Num 600], category = False\<rparr>),
         (''EDUCATION'', \<lparr>vals = [Num 1, Num 0, Num 5, Num 2, Num 3, Num 6], category = False\<rparr>),
         (''MARRIAGE'', \<lparr>vals = [Num 1, Num 1, Num 2, Num 1, Num 0, Num 3], category = False\<rparr>),
         (''default payment next month'',
            \<lparr>vals = [Num 1, Num 0, Num 1, Num 0, Num 0, Num 0], category = False\<rparr>)]\<rparr>"

text \<open>The cleaned frame and the feature table the cleaner produces from it.\<close>

definition cleaned_example :: dataframe where
  "cleaned_example =
     \<lparr>df_index = [0, 2, 5],
      df_columns =
        [(''LIMIT_BAL'', \<lparr>vals = [Num 100, Num 300, Num 600], category = False\<rparr>),
         (''EDUCATION'', \<lparr>vals = [Num 1, Num 4, Num 4], category = True\<rparr>),
         (''MARRIAGE'', \<lparr>vals = [Num 1, Num 2, Num 3], category = False\<rparr>),
         (''default'', \<lparr>vals = [Num 1, Num 1, Num 0], category = False\<rparr>)]\<rparr>"

definition features_example :: dataframe where
  "features_example =
     \<lparr>df_index = [0, 2, 5],
      df_columns =
        [(''LIMIT_BAL'', \<lparr>vals = [Num 100, Num 300, Num 600], category = False\<rparr>),
         (''EDUCATION'', \<lparr>vals = [Num 1, Num 4, Num 4], category = True\<rparr>),
         (''MARRIAGE'', \<lparr>vals = [Num 1, Num 2, Num 3], category = False\<rparr>)]\<rparr>"

section \<open>Properties of the data cleaner\<close>

subsection \<open>Running the function body\<close>


lemma limpiarDatos_InrI:
  assumes "r < length s"
    and "drop_columns [''ID''] (rename [(''default payment next month'', ''default'')] (s ! r)) = Inr d3"
    and "getitem ''EDUCATION'' (dropna d3) = Inr edu"
    and "getitem ''MARRIAGE'' (dropna d3) = Inr mar"
    and "getitem_mask (mask_and (ne_scalar edu 0) (ne_scalar mar 0)) (dropna d3) = Inr d5"
    and "getitem ''EDUCATION'' d5 = Inr edu5"
    and "drop_columns [''default''] (setitem ''EDUCATION'' (astype_category (series_apply agrupar edu5)) d5) = Inr dx"
    and "getitem ''default'' (setitem ''EDUCATION'' (astype_category (series_apply agrupar edu5)) d5) = Inr y"
  shows "limpiarDatos r s = (Inr (length s + 4, length s + 5, y),
     s @ [s ! r, rename [(''default payment next month'', ''default'')] (s ! r), d3, dropna d3,
               setitem ''EDUCATION'' (astype_category (series_apply agrupar edu5)) d5, dx])"
  using assms
  by (simp add: limpiarDatos_def alloc_def Let_def or_raise_def nth_append list_update_append)

subsection \<open>Mask selection on lists\<close>

lemma boolean_index_Nil [simp]: "boolean_index [] xs = []" "boolean_index m [] = []"
  by (simp_all add: boolean_index_def)

lemma boolean_index_Cons [simp]:
  "boolean_index (b # m) (x # xs) = (if b then x # boolean_index m xs else boolean_index m xs)"
  by (simp add: boolean_index_def)

lemma boolean_index_map: "boolean_index m (map f xs) = map f (boolean_index m xs)"
proof (induction m arbitrary: xs)
  case Nil
  then show ?case by simp
next
  case (Cons b m)
  then show ?case by (cases xs) auto
qed

lemma boolean_index_self: "boolean_index (map P xs) xs = filter P xs"
  by (induction xs) auto

lemma boolean_index_nths:
  assumes "length xs = n"
  shows "boolean_index m xs = map (nth xs) (boolean_index m [0..<n])"
proof -
  have "boolean_index m xs = boolean_index m (map (nth xs) [0..<n])"
    using assms map_nth [of xs] by simp
  then show ?thesis by (simp add: boolean_index_map)
qed

subsection \<open>Frames\<close>

lemma wf_df_iff: "wf_df df \<longleftrightarrow> (\<forall>(n, c) \<in> set (df_columns df). length (vals c) = nrows df)"
  by (simp add: wf_df_def list_all_iff)

lemma wf_df_col: "wf_df df \<Longrightarrow> (n, c) \<in> set (df_columns df) \<Longrightarrow> length (vals c) = nrows df"
  by (auto simp: wf_df_iff)

lemma index_take_rows:
  "df_index (take_rows m df) = map (nth (df_index df)) (boolean_index m [0..<nrows df])"
  using boolean_index_nths [of "df_index df" "nrows df" m]
  by (simp add: nrows_def take_rows_def)

lemma nrows_take_rows:
  "nrows (take_rows m df) = length (boolean_index m [0..<nrows df])"
  using index_take_rows [of m df] by (simp add: nrows_def)

lemma names_take_rows [simp]: "column_names (take_rows m df) = column_names df"
  by (auto simp: column_names_def take_rows_def)

lemma vals_take_rows:
  assumes "wf_df df" and "(n, c) \<in> set (df_columns df)"
  shows "boolean_index m (vals c) = map (nth (vals c)) (boolean_index m [0..<nrows df])"
  using assms by (intro boolean_index_nths) (rule wf_df_col)

lemma wf_take_rows:
  assumes "wf_df df"
  shows "wf_df (take_rows m df)"
proof -
  have "length (vals c') = nrows (take_rows m df)"
    if "(n, c') \<in> set (df_columns (take_rows m df))" for n c'
  proof -
    from that obtain c where c: "(n, c) \<in> set (df_columns df)"
      and c': "c' = c\<lparr>vals := boolean_index m (vals c)\<rparr>"
      by (auto simp: take_rows_def)
    show ?thesis
      using vals_take_rows [OF assms c, of m] by (simp add: c' nrows_take_rows)
  qed
  then show ?thesis
    unfolding wf_df_iff by blast
qed

lemma row_at_take_rows:
  assumes "wf_df df" and "k < length (boolean_index m [0..<nrows df])"
  shows "row_at (take_rows m df) k = row_at df (boolean_index m [0..<nrows df] ! k)"
proof -
  let ?ps = "boolean_index m [0..<nrows df]"
  have "(case nc of (n, c) \<Rightarrow> (n, boolean_index m (vals c) ! k)) =
        (case nc of (n, c) \<Rightarrow> (n, vals c ! (?ps ! k)))"
    if "nc \<in> set (df_columns df)" for nc
  proof -
    obtain n c where nc: "nc = (n, c)" by (cases nc)
    show ?thesis
      using vals_take_rows [OF assms(1), of n c m] that assms(2) by (simp add: nc)
  qed
  then have "map (\<lambda>(n, c). (n, vals c ! k)) (df_columns (take_rows m df)) =
        map (\<lambda>(n, c). (n, vals c ! (?ps ! k))) (df_columns df)"
    by (simp add: take_rows_def split_beta)
  then show ?thesis
    using assms(2) by (simp add: row_at_def index_take_rows)
qed

lemma rows_of_take_rows:
  assumes "wf_df df"
  shows "rows_of (take_rows m df) = boolean_index m (rows_of df)"
proof -
  let ?ps = "boolean_index m [0..<nrows df]"
  have "rows_of (take_rows m df) = map (row_at (take_rows m df)) [0..<length ?ps]"
    by (simp add: rows_of_def nrows_take_rows)
  also have "\<dots> = map (row_at df) ?ps"
    using assms by (intro nth_equalityI) (simp_all add: row_at_take_rows)
  also have "\<dots> = boolean_index m (rows_of df)"
    by (simp add: rows_of_def boolean_index_map)
  finally show ?thesis .
qed

lemma notna_row_at: "notna_row df p = list_all (\<lambda>(n, v). v \<noteq> NA) (snd (row_at df p))"
  by (simp add: notna_row_def row_at_def list_all_iff split_beta)

lemma rows_of_dropna:
  assumes "wf_df df"
  shows "rows_of (dropna df) = spec_drop_missing (rows_of df)"
proof -
  have "rows_of (dropna df) = boolean_index (map (notna_row df) [0..<nrows df]) (rows_of df)"
    using assms by (simp add: dropna_def rows_of_take_rows)
  also have "\<dots> = map (row_at df) (filter (notna_row df) [0..<nrows df])"
    by (simp add: rows_of_def boolean_index_map boolean_index_self)
  also have "\<dots> = spec_drop_missing (rows_of df)"
    by (simp add: spec_drop_missing_def rows_of_def filter_map o_def split_beta
        notna_row_at [abs_def])
  finally show ?thesis .
qed

lemma wf_dropna: "wf_df df \<Longrightarrow> wf_df (dropna df)"
  by (simp add: dropna_def wf_take_rows)

lemma names_dropna [simp]: "column_names (dropna df) = column_names df"
  by (simp add: dropna_def)


subsection \<open>Column operations\<close>

lemma columns_rename:
  "df_columns (rename [(''default payment next month'', ''default'')] df) =
     map (\<lambda>(n, c). (rn n, c)) (df_columns df)"
  by (simp add: rename_def rn_def split_beta)

lemma names_rename:
  "column_names (rename [(''default payment next month'', ''default'')] df) = map rn (column_names df)"
  by (simp add: column_names_def columns_rename split_beta o_def)

lemma nrows_rename [simp]: "nrows (rename mp df) = nrows df"
  by (simp add: nrows_def rename_def)

lemma index_rename [simp]: "df_index (rename mp df) = df_index df"
  by (simp add: rename_def)

lemma wf_rename: "wf_df df \<Longrightarrow> wf_df (rename mp df)"
  by (auto simp: wf_df_iff rename_def nrows_def)

lemma rows_of_rename:
  "rows_of (rename [(''default payment next month'', ''default'')] df) = spec_rename_label (rows_of df)"
  by (simp add: rows_of_def spec_rename_label_def row_at_def columns_rename rn_def split_beta o_def)

lemma drop_columns_Inr:
  assumes "drop_columns ls df = Inr d"
  shows "d = df\<lparr>df_columns := filter (\<lambda>(n, c). n \<notin> set ls) (df_columns df)\<rparr>"
    and "set ls \<subseteq> set (column_names df)"
  using assms by (auto simp: drop_columns_def filter_empty_conv split: list.splits)

lemma drop_columns_ok:
  assumes "set ls \<subseteq> set (column_names df)"
  shows "drop_columns ls df = Inr (df\<lparr>df_columns := filter (\<lambda>(n, c). n \<notin> set ls) (df_columns df)\<rparr>)"
proof -
  have "filter (\<lambda>l. l \<notin> set (column_names df)) ls = []"
    using assms by (auto simp: filter_empty_conv)
  then show ?thesis by (simp add: drop_columns_def)
qed

lemma names_drop_columns:
  "drop_columns ls df = Inr d \<Longrightarrow> column_names d = filter (\<lambda>n. n \<notin> set ls) (column_names df)"
  by (drule drop_columns_Inr(1)) (simp add: column_names_def filter_map o_def split_def)

lemma index_drop_columns: "drop_columns ls df = Inr d \<Longrightarrow> df_index d = df_index df"
  by (drule drop_columns_Inr(1)) simp

lemma wf_drop_columns: "drop_columns ls df = Inr d \<Longrightarrow> wf_df df \<Longrightarrow> wf_df d"
  by (drule drop_columns_Inr(1)) (auto simp: wf_df_iff nrows_def)

lemma rows_of_drop_columns:
  assumes "drop_columns ls df = Inr d"
  shows "rows_of d = map (\<lambda>(i, cs). (i, filter (\<lambda>(n, v). n \<notin> set ls) cs)) (rows_of df)"
  using drop_columns_Inr(1) [OF assms]
  by (simp add: rows_of_def row_at_def nrows_def filter_map o_def split_def)

lemma map_of_row_at:
  "map_of (snd (row_at df p)) name = cell_at df name p"
  by (simp add: row_at_def cell_at_def map_of_map split_beta)

lemma getitem_Inr:
  assumes "getitem name df = Inr ser"
  shows "\<exists>c. map_of (df_columns df) name = Some c \<and> s_index ser = df_index df \<and>
             s_vals ser = vals c \<and> s_category ser = category c"
  using assms by (auto simp: getitem_def split: option.splits)

lemma getitem_ok:
  assumes "name \<in> set (column_names df)"
  shows "\<exists>ser. getitem name df = Inr ser"
proof -
  from assms have "map_of (df_columns df) name \<noteq> None"
    by (simp add: column_names_def map_of_eq_None_iff)
  then show ?thesis by (auto simp: getitem_def)
qed


lemma getitem_vals:
  assumes "getitem name df = Inr ser" and "wf_df df"
  shows "length (s_vals ser) = nrows df"
    and "p < nrows df \<Longrightarrow> cell_at df name p = Some (s_vals ser ! p)"
proof -
  from getitem_Inr [OF assms(1)] obtain c where c: "map_of (df_columns df) name = Some c"
    and v: "s_vals ser = vals c" by blast
  from c have "(name, c) \<in> set (df_columns df)" by (rule map_of_SomeD)
  with assms(2) show "length (s_vals ser) = nrows df" by (simp add: v wf_df_col)
  show "cell_at df name p = Some (s_vals ser ! p)" by (simp add: cell_at_def c v)
qed

lemma code_mask:
  assumes "wf_df df" and "getitem ''EDUCATION'' df = Inr edu" and "getitem ''MARRIAGE'' df = Inr mar"
  shows "mask_and (ne_scalar edu 0) (ne_scalar mar 0) = map (\<lambda>p. code_known (row_at df p)) [0..<nrows df]"
proof (rule nth_equalityI)
  show "length (mask_and (ne_scalar edu 0) (ne_scalar mar 0)) =
        length (map (\<lambda>p. code_known (row_at df p)) [0..<nrows df])"
    using getitem_vals(1) [OF assms(2,1)] getitem_vals(1) [OF assms(3,1)]
    by (simp add: mask_and_def ne_scalar_def)
next
  fix p
  assume "p < length (mask_and (ne_scalar edu 0) (ne_scalar mar 0))"
  then have p: "p < nrows df"
    using getitem_vals(1) [OF assms(2,1)] getitem_vals(1) [OF assms(3,1)]
    by (simp add: mask_and_def ne_scalar_def)
  with getitem_vals(1) [OF assms(2,1)] getitem_vals(1) [OF assms(3,1)]
   getitem_vals(2) [OF assms(2,1) p] getitem_vals(2) [OF assms(3,1) p]
  show "mask_and (ne_scalar edu 0) (ne_scalar mar 0) ! p =
        map (\<lambda>p. code_known (row_at df p)) [0..<nrows df] ! p"
    by (simp add: mask_and_def ne_scalar_def code_known_def map_of_row_at)
qed

lemma rows_of_code_mask:
  assumes "wf_df df"
  shows "rows_of (take_rows (map (\<lambda>p. code_known (row_at df p)) [0..<nrows df]) df) =
         spec_drop_code0 (rows_of df)"
proof -
  have "rows_of (take_rows (map (\<lambda>p. code_known (row_at df p)) [0..<nrows df]) df) =
        map (row_at df) (filter (\<lambda>p. code_known (row_at df p)) [0..<nrows df])"
    using assms by (simp add: rows_of_take_rows) (simp add: rows_of_def boolean_index_map boolean_index_self)
  also have "\<dots> = spec_drop_code0 (rows_of df)"
    by (simp add: spec_drop_code0_def rows_of_def filter_map o_def split_def code_known_def)
  finally show ?thesis .
qed

lemma agrupar_spec: "agrupar v = spec_collapse v"
  by (cases v) (simp_all add: agrupar_def spec_collapse_def)

lemma setitem_existing:
  assumes "getitem name df = Inr ser0" 
  shows "df_columns (setitem name ser df) =
     map (\<lambda>(n, c0). if n = name then (n, \<lparr>vals = s_vals ser, category = s_category ser\<rparr>) else (n, c0))
       (df_columns df)"
    and "df_index (setitem name ser df) = df_index df"
proof -
  from getitem_Inr [OF assms] obtain c where "map_of (df_columns df) name = Some c" by blast
  then have "name \<in> set (column_names df)"
    by (auto simp: column_names_def dest: map_of_SomeD intro: rev_image_eqI)
  then show "df_columns (setitem name ser df) =
     map (\<lambda>(n, c0). if n = name then (n, \<lparr>vals = s_vals ser, category = s_category ser\<rparr>) else (n, c0))
       (df_columns df)"
    and "df_index (setitem name ser df) = df_index df"
    by (simp_all add: setitem_def Let_def)
qed

lemma names_setitem:
  assumes "getitem name df = Inr ser0"
  shows "column_names (setitem name ser df) = column_names df"
  by (simp add: column_names_def setitem_existing(1) [OF assms] o_def split_def if_distrib [of fst] cong: if_cong)

lemma wf_setitem:
  assumes "getitem name df = Inr ser0" and "wf_df df" and "length (s_vals ser) = nrows df"
  shows "wf_df (setitem name ser df)"
  using assms(2,3) unfolding wf_df_iff nrows_def setitem_existing [OF assms(1)]
  by (auto split: if_splits)

lemma recode_row_at:
  assumes "wf_df df" and "distinct (column_names df)" and "getitem ''EDUCATION'' df = Inr edu"
    and "p < nrows df"
  shows "row_at (setitem ''EDUCATION'' (astype_category (series_apply agrupar edu)) df) p =
         (case row_at df p of (i, cs) \<Rightarrow>
            (i, map (\<lambda>(n, v). (n, if n = ''EDUCATION'' then spec_collapse v else v)) cs))"
proof -
  from getitem_Inr [OF assms(3)] obtain c where c: "map_of (df_columns df) ''EDUCATION'' = Some c"
    and v: "s_vals edu = vals c" by blast
  have len: "length (vals c) = nrows df"
    using getitem_vals(1) [OF assms(3,1)] by (simp add: v)
  have "map agrupar (vals c) ! p = spec_collapse (vals (snd nc) ! p)"
    if "nc \<in> set (df_columns df)" and "fst nc = ''EDUCATION''" for nc
  proof -
    from that have "(''EDUCATION'', snd nc) \<in> set (df_columns df)"
      by (metis prod.collapse)
    with assms(2) have "map_of (df_columns df) ''EDUCATION'' = Some (snd nc)"
      by (simp add: column_names_def)
    with c have "snd nc = c" by simp
    then show ?thesis using len assms(4) by (simp add: agrupar_spec)
  qed
  then show ?thesis
    by (simp add: row_at_def setitem_existing [OF assms(3)] astype_category_def series_apply_def v
        o_def split_def)
qed

lemma rows_of_recode:
  assumes "wf_df df" and "distinct (column_names df)" and "getitem ''EDUCATION'' df = Inr edu"
  shows "rows_of (setitem ''EDUCATION'' (astype_category (series_apply agrupar edu)) df) =
         spec_collapse_education (rows_of df)"
proof -
  have "nrows (setitem ''EDUCATION'' (astype_category (series_apply agrupar edu)) df) = nrows df"
    by (simp add: nrows_def setitem_existing(2) [OF assms(3)])
  then show ?thesis
    using assms by (simp add: rows_of_def spec_collapse_education_def recode_row_at split_def)
qed

subsection \<open>The function on the expected frames\<close>


lemma inj_on_rn: "''default'' \<notin> A \<Longrightarrow> inj_on rn A"
  by (auto simp: inj_on_def rn_def split: if_splits)

lemma labels_of_getitem:
  assumes "getitem ''default'' df = Inr y" and "wf_df df"
  shows "zip (s_index y) (map Some (s_vals y)) = spec_labels (rows_of df)"
proof (rule nth_equalityI)
  show "length (zip (s_index y) (map Some (s_vals y))) = length (spec_labels (rows_of df))"
    using getitem_Inr [OF assms(1)] getitem_vals(1) [OF assms]
    by (auto simp: spec_labels_def rows_of_def nrows_def)
next
  fix p
  assume "p < length (zip (s_index y) (map Some (s_vals y)))"
  then have p: "p < nrows df" and p': "p < length (s_vals y)"
    using getitem_vals(1) [OF assms] by simp_all
  have "s_index y = df_index df"
    using getitem_Inr [OF assms(1)] by blast
  then show "zip (s_index y) (map Some (s_vals y)) ! p = spec_labels (rows_of df) ! p"
    using p p' getitem_vals(2) [OF assms p]
    by (simp add: spec_labels_def rows_of_def split_def map_of_row_at) (simp add: row_at_def nrows_def)
qed

lemma map_of_replaced:
  "map_of cols name = Some c0 \<Longrightarrow>
   map_of (map (\<lambda>(n, c0). if n = name then (n, c) else (n, c0)) cols) name = Some c"
  by (induction cols) (auto split: if_splits)

lemma limpiarDatos_expected:
  assumes ex: "expected_columns (s ! r)" and r: "r < length s"
  shows "\<exists>c x y s'. limpiarDatos r s = (Inr (c, x, y), s') \<and>
           c < length s' \<and> x < length s' \<and> wf_df (s' ! c) \<and> wf_df (s' ! x) \<and>
           rows_of (s' ! c) = spec_clean (rows_of (s ! r)) \<and>
           rows_of (s' ! x) = spec_features (rows_of (s' ! c)) \<and>
           zip (s_index y) (map Some (s_vals y)) = spec_labels (rows_of (s' ! c)) \<and>
           column_names (s' ! c) = filter (\<lambda>n. n \<noteq> ''ID'') (map rn (column_names (s ! r))) \<and>
           column_names (s' ! x) = filter (\<lambda>n. n \<noteq> ''default'') (column_names (s' ! c)) \<and>
           map_option category (map_of (df_columns (s' ! c)) ''EDUCATION'') = Some True \<and>
           df_index (s' ! x) = df_index (s' ! c) \<and> s_index y = df_index (s' ! c) \<and>
           length (s_vals y) = nrows (s' ! c)"
proof -
  let ?raw = "s ! r"
  let ?d2 = "rename [(''default payment next month'', ''default'')] ?raw"
  from ex have wf: "wf_df ?raw" and dist: "distinct (column_names ?raw)"
    and ids: "''ID'' \<in> set (column_names ?raw)" "''EDUCATION'' \<in> set (column_names ?raw)"
      "''MARRIAGE'' \<in> set (column_names ?raw)"
      "''default payment next month'' \<in> set (column_names ?raw)"
    and nodef: "''default'' \<notin> set (column_names ?raw)"
    by (simp_all add: expected_columns_def)
  have names2: "column_names ?d2 = map rn (column_names ?raw)"
    by (rule names_rename)
  have dist2: "distinct (column_names ?d2)"
    using dist inj_on_rn [OF nodef] by (simp add: names2 distinct_map)
  have in2: "''ID'' \<in> set (column_names ?d2)" "''EDUCATION'' \<in> set (column_names ?d2)"
      "''MARRIAGE'' \<in> set (column_names ?d2)" "''default'' \<in> set (column_names ?d2)"
    using ids unfolding names2 set_map by (force simp: rn_def)+
  from in2(1) obtain d3 where d3: "drop_columns [''ID''] ?d2 = Inr d3"
    using drop_columns_ok [of "[''ID'']" ?d2] by simp
  have names3: "column_names d3 = filter (\<lambda>n. n \<noteq> ''ID'') (map rn (column_names ?raw))"
    using names_drop_columns [OF d3] by (simp add: names2)
  have dist3: "distinct (column_names d3)"
    using dist2 by (simp add: names3 names2 [symmetric])
  have in3: "''EDUCATION'' \<in> set (column_names d3)" "''MARRIAGE'' \<in> set (column_names d3)"
      "''default'' \<in> set (column_names d3)"
    using in2 by (simp_all add: names3 names2 [symmetric])
  have wf3: "wf_df d3"
    using wf_drop_columns [OF d3] wf by (simp add: wf_rename)
  let ?d4 = "dropna d3"
  have wf4: "wf_df ?d4" using wf3 by (rule wf_dropna)
  obtain edu where edu: "getitem ''EDUCATION'' ?d4 = Inr edu"
    using getitem_ok [of "''EDUCATION''" ?d4] in3 by auto
  obtain mar where mar: "getitem ''MARRIAGE'' ?d4 = Inr mar"
    using getitem_ok [of "''MARRIAGE''" ?d4] in3 by auto
  let ?m = "mask_and (ne_scalar edu 0) (ne_scalar mar 0)"
  have m: "?m = map (\<lambda>p. code_known (row_at ?d4 p)) [0..<nrows ?d4]"
    using wf4 edu mar by (rule code_mask)
  let ?d5 = "take_rows ?m ?d4"
  have d5: "getitem_mask ?m ?d4 = Inr ?d5"
    by (simp add: getitem_mask_def m)
  have wf5: "wf_df ?d5" using wf4 by (rule wf_take_rows)
  have names5: "column_names ?d5 = column_names d3" by simp
  obtain edu5 where edu5: "getitem ''EDUCATION'' ?d5 = Inr edu5"
    using getitem_ok [of "''EDUCATION''" ?d5] in3 by auto
  let ?d6 = "setitem ''EDUCATION'' (astype_category (series_apply agrupar edu5)) ?d5"
  have names6: "column_names ?d6 = column_names d3"
    using names_setitem [OF edu5] by simp
  have len5: "length (s_vals (astype_category (series_apply agrupar edu5))) = nrows ?d5"
    using getitem_vals(1) [OF edu5 wf5] by (simp add: astype_category_def series_apply_def)
  have wf6: "wf_df ?d6"
    using edu5 wf5 len5 by (rule wf_setitem)
  obtain dx where dx: "drop_columns [''default''] ?d6 = Inr dx"
    using drop_columns_ok [of "[''default'']" ?d6] in3 by (simp add: names6)
  obtain y where y: "getitem ''default'' ?d6 = Inr y"
    using getitem_ok [of "''default''" ?d6] in3 by (auto simp: names6)
  let ?s' = "s @ [?raw, ?d2, d3, ?d4, ?d6, dx]"
  have run: "limpiarDatos r s = (Inr (length s + 4, length s + 5, y), ?s')"
    using r d3 edu mar d5 edu5 dx y by (rule limpiarDatos_InrI)
  have c: "?s' ! (length s + 4) = ?d6" and x: "?s' ! (length s + 5) = dx"
    by (simp_all add: nth_append)
  have rows6: "rows_of ?d6 = spec_clean (rows_of ?raw)"
    using rows_of_recode [OF wf5 _ edu5] dist3
    by (simp add: m rows_of_code_mask [OF wf4] rows_of_dropna [OF wf3]
        rows_of_drop_columns [OF d3] rows_of_rename spec_clean_def spec_drop_id_def)
  have rowsx: "rows_of dx = spec_features (rows_of ?d6)"
    by (simp add: rows_of_drop_columns [OF dx] spec_features_def)
  have cat: "map_option category (map_of (df_columns ?d6) ''EDUCATION'') = Some True"
  proof -
    from getitem_Inr [OF edu5] obtain c0 where "map_of (df_columns ?d5) ''EDUCATION'' = Some c0"
      by blast
    then show ?thesis
      unfolding setitem_existing(1) [OF edu5]
      by (simp add: map_of_replaced astype_category_def)
  qed
  have ys: "s_index y = df_index ?d6" "length (s_vals y) = nrows ?d6"
    using getitem_Inr [OF y] getitem_vals(1) [OF y wf6] by auto
  show ?thesis
    apply (intro exI conjI)
                 apply (rule run)
                apply simp
               apply simp
              apply (simp only: c wf6)
             apply (simp only: x wf_drop_columns [OF dx wf6])
            apply (simp only: c rows6)
           apply (simp only: c x rowsx)
          apply (simp only: c labels_of_getitem [OF y wf6])
         apply (simp only: c names6 names3)
        apply (simp only: c x names_drop_columns [OF dx]) apply simp
       apply (simp only: c cat)
      apply (simp only: c x index_drop_columns [OF dx])
     apply (simp only: c ys)
    apply (simp only: c ys)
    done
qed

subsection \<open>Where a cleaned record comes from\<close>

lemma map_of_filter_row:
  "name \<noteq> d \<Longrightarrow> map_of (filter (\<lambda>(n, v). n \<noteq> d) cs) name = map_of cs name"
  by (induction cs) auto

lemma map_of_collapse_row:
  "map_of (map (\<lambda>(n, v). (n, if n = ''EDUCATION'' then spec_collapse v else v)) cs) name =
   map_option (\<lambda>v. if name = ''EDUCATION'' then spec_collapse v else v) (map_of cs name)"
  by (induction cs) auto

lemma fst_spec_maps:
  "map fst (spec_collapse_education rs) = map fst rs"
  "map fst (spec_drop_id rs) = map fst rs"
  "map fst (spec_rename_label rs) = map fst rs"
  "map fst (spec_features rs) = map fst rs"
  by (simp_all add: spec_collapse_education_def spec_drop_id_def spec_rename_label_def
      spec_features_def o_def split_def)

lemma subseq_spec_filters:
  "subseq (map fst (spec_drop_code0 rs)) (map fst rs)"
  "subseq (map fst (spec_drop_missing rs)) (map fst rs)"
  by (simp_all add: spec_drop_code0_def spec_drop_missing_def subseq_map)

lemma spec_clean_subseq: "subseq (map fst (spec_clean rs)) (map fst rs)"
proof -
  let ?rs = "spec_drop_id (spec_rename_label rs)"
  have "subseq (map fst (spec_drop_code0 (spec_drop_missing ?rs))) (map fst ?rs)"
    using subseq_spec_filters(1) [of "spec_drop_missing ?rs"] subseq_spec_filters(2) [of ?rs]
    by (rule subseq_order.trans)
  then show ?thesis
    by (simp add: spec_clean_def fst_spec_maps)
qed


lemma list_all_rename_row:
  "list_all (\<lambda>(n, v). v \<noteq> NA) (filter (\<lambda>(n, v). n \<noteq> ''ID'') (map (\<lambda>(n, v). (rn n, v)) cs)) =
   list_all (\<lambda>(n, v). v \<noteq> NA) (filter (\<lambda>(n, v). n \<noteq> ''ID'') cs)"
  by (induction cs) (auto simp: rn_def split: if_splits)

lemma map_of_rn_row:
  "name \<noteq> ''default'' \<Longrightarrow> name \<noteq> ''default payment next month'' \<Longrightarrow>
   map_of (map (\<lambda>(n, v). (rn n, v)) cs) name = map_of cs name"
  by (induction cs) (auto simp: rn_def)

lemma spec_clean_fused: "spec_clean rs = map clean_row (filter keeps_row rs)"
proof (induction rs)
  case Nil
  show ?case
    by (simp add: spec_clean_def spec_collapse_education_def spec_drop_code0_def
        spec_drop_missing_def spec_drop_id_def spec_rename_label_def)
next
  case (Cons rw rs)
  obtain i cs where rw: "rw = (i, cs)" by (cases rw)
  have rn: "(\<lambda>(n, v). (if n = ''default payment next month'' then ''default'' else n, v)) =
            (\<lambda>(n, v). (rn n, v :: cell))"
    by (simp add: rn_def fun_eq_iff)
  from Cons show ?case
    unfolding spec_clean_def spec_collapse_education_def spec_drop_code0_def
      spec_drop_missing_def spec_drop_id_def spec_rename_label_def
    by (simp add: rw keeps_row_def clean_row_def code_known_def map_of_filter_row
        map_of_rn_row list_all_rename_row rn)
qed

lemma index_rows_of: "map fst (rows_of df) = df_index df"
  by (simp add: rows_of_def row_at_def nrows_def o_def map_nth)

lemma length_rows_of [simp]: "length (rows_of df) = nrows df"
  by (simp add: rows_of_def)

lemma rows_of_nth: "k < nrows df \<Longrightarrow> rows_of df ! k = row_at df k"
  by (simp add: rows_of_def)

lemma sorted_wrt_filter_upt: "sorted_wrt (<) (filter P [0..<n])"
  by (rule sorted_wrt_filter) (simp add: sorted_wrt_upt)

lemma rows_of_survivors:
  assumes "rows_of c = spec_clean (rows_of raw)"
  shows "rows_of c = map (\<lambda>p. clean_row (row_at raw p)) (filter (\<lambda>p. keeps_row (row_at raw p)) [0..<nrows raw])"
  by (simp add: assms spec_clean_fused) (simp add: rows_of_def filter_map o_def)


lemma map_of_clean_row:
  assumes "name \<noteq> ''ID''" and "name \<noteq> ''default''" and "name \<noteq> ''default payment next month''"
  shows "map_of (snd (clean_row rw)) name =
         map_option (\<lambda>v. if name = ''EDUCATION'' then spec_collapse v else v) (map_of (snd rw) name)"
  using assms by (simp add: clean_row_def map_of_collapse_row map_of_filter_row map_of_rn_row)

lemma cell_at_row: "k < nrows df \<Longrightarrow> cell_at df name k = map_of (snd (rows_of df ! k)) name"
  by (simp add: rows_of_nth map_of_row_at)

lemma index_row: "k < nrows df \<Longrightarrow> df_index df ! k = fst (rows_of df ! k)"
  by (simp add: rows_of_nth row_at_def)

text \<open>The facts about a successful run on an expected frame, for the run at hand.\<close>

lemma limpiarDatos_facts:
  assumes "expected_columns (s ! r)" and "r < length s"
    and "limpiarDatos r s = (Inr (c, x, y), s')"
  shows "rows_of (s' ! c) = spec_clean (rows_of (s ! r))"
    and "rows_of (s' ! x) = spec_features (rows_of (s' ! c))"
    and "zip (s_index y) (map Some (s_vals y)) = spec_labels (rows_of (s' ! c))"
    and "column_names (s' ! c) = filter (\<lambda>n. n \<noteq> ''ID'') (map rn (column_names (s ! r)))"
    and "column_names (s' ! x) = filter (\<lambda>n. n \<noteq> ''default'') (column_names (s' ! c))"
    and "map_option category (map_of (df_columns (s' ! c)) ''EDUCATION'') = Some True"
    and "df_index (s' ! x) = df_index (s' ! c)"
    and "s_index y = df_index (s' ! c)"
    and "length (s_vals y) = nrows (s' ! c)"
    and "wf_df (s' ! c)" and "wf_df (s' ! x)"
  using limpiarDatos_expected [OF assms(1,2)] assms(3) by auto

lemma limpiarDatos_survivors:
  assumes "expected_columns (s ! r)" and "r < length s"
    and "limpiarDatos r s = (Inr (c, x, y), s')"
  defines "ps \<equiv> filter (\<lambda>p. keeps_row (row_at (s ! r) p)) [0..<nrows (s ! r)]"
  shows "length ps = nrows (s' ! c)"
    and "k < nrows (s' ! c) \<Longrightarrow> rows_of (s' ! c) ! k = clean_row (row_at (s ! r) (ps ! k))"
    and "k < nrows (s' ! c) \<Longrightarrow> ps ! k < nrows (s ! r) \<and> keeps_row (row_at (s ! r) (ps ! k))"
proof -
  have rows: "rows_of (s' ! c) = map (\<lambda>p. clean_row (row_at (s ! r) p)) ps"
    unfolding ps_def using limpiarDatos_facts(1) [OF assms(1-3)] by (rule rows_of_survivors)
  from arg_cong [OF rows, of length] show len: "length ps = nrows (s' ! c)"
    by simp
  show "rows_of (s' ! c) ! k = clean_row (row_at (s ! r) (ps ! k))" if "k < nrows (s' ! c)"
    using that len by (simp add: rows)
  show "ps ! k < nrows (s ! r) \<and> keeps_row (row_at (s ! r) (ps ! k))" if "k < nrows (s' ! c)"
  proof -
    from that len have "ps ! k \<in> set ps" by simp
    then show ?thesis by (simp add: ps_def)
  qed
qed

lemma cell_features:
  assumes "expected_columns (s ! r)" and "r < length s"
    and "limpiarDatos r s = (Inr (c, x, y), s')"
    and "k < nrows (s' ! c)" and "name \<noteq> ''default''"
  shows "cell_at (s' ! x) name k = cell_at (s' ! c) name k"
proof -
  have n: "nrows (s' ! x) = nrows (s' ! c)"
    using limpiarDatos_facts(7) [OF assms(1-3)] by (simp add: nrows_def)
  show ?thesis
    using assms(4,5) n
    by (simp add: cell_at_row limpiarDatos_facts(2) [OF assms(1-3)] spec_features_def
        split_def map_of_filter_row [unfolded split_def])
qed

lemma cell_labels:
  assumes "expected_columns (s ! r)" and "r < length s"
    and "limpiarDatos r s = (Inr (c, x, y), s')"
    and "k < nrows (s' ! c)"
  shows "cell_at (s' ! c) ''default'' k = Some (s_vals y ! k)"
proof -
  have "zip (s_index y) (map Some (s_vals y)) ! k = spec_labels (rows_of (s' ! c)) ! k"
    by (simp add: limpiarDatos_facts(3) [OF assms(1-3)])
  then show ?thesis
    using assms(4) limpiarDatos_facts(8,9) [OF assms(1-3)]
    by (simp add: cell_at_row spec_labels_def split_def nrows_def)
qed


subsection \<open>The example run\<close>

lemma example_expected: "expected_columns ([raw_example] ! 0)"
  by code_simp

lemma example_run:
  "limpiarDatos 0 [raw_example] =
     (Inr (5, 6, \<lparr>s_index = [0, 2, 5], s_vals = [Num 1, Num 1, Num 0], s_category = False\<rparr>),
      snd (limpiarDatos 0 [raw_example]))"
proof -
  have "fst (limpiarDatos 0 [raw_example]) =
        Inr (5, 6, \<lparr>s_index = [0, 2, 5], s_vals = [Num 1, Num 1, Num 0], s_category = False\<rparr>)"
    by code_simp
  then show ?thesis by (simp add: prod_eq_iff)
qed

lemma example_frames:
  "snd (limpiarDatos 0 [raw_example]) ! 5 = cleaned_example"
  "snd (limpiarDatos 0 [raw_example]) ! 6 = features_example"
  by code_simp+

lemma example_cleaned:
  "spec_clean (rows_of ([raw_example] ! 0)) =
     [(0, [(''LIMIT_BAL'', Num 100), (''EDUCATION'', Num 1), (''MARRIAGE'', Num 1), (''default'', Num 1)]),
      (2, [(''LIMIT_BAL'', Num 300), (''EDUCATION'', Num 4), (''MARRIAGE'', Num 2), (''default'', Num 1)]),
      (5, [(''LIMIT_BAL'', Num 600), (''EDUCATION'', Num 4), (''MARRIAGE'', Num 3), (''default'', Num 0)])]"
  by code_simp

text \<open>
  The order of the steps is observable: on the example, dropping the rows with a missing
  value before the identifier column is removed loses row 2, whose only missing cell is
  its identifier.
\<close>

lemma example_order_matters:
  "map fst (spec_drop_missing (spec_drop_id (rows_of raw_example))) = [0, 1, 2, 4, 5]"
  "map fst (spec_drop_id (spec_drop_missing (rows_of raw_example))) = [0, 1, 4, 5]"
  by code_simp+

section \<open>Claims about the data cleaner\<close>

text \<open>
  C1. On every raw frame with the expected columns the cleaner succeeds, and its result is
  the composition of the steps in the order the specification lists them: the records of the
  cleaned frame are those of the input after renaming the label column, dropping the
  identifier column, dropping the records with a missing value, dropping the records with
  education or marital-status code 0, and collapsing the education codes; the education
  column is categorical; X holds the cleaned records without \<open>default\<close>, and y holds their
  \<open>default\<close> cells under the same row labels.
\<close>

theorem limpiarDatos_steps_in_order:
  assumes "expected_columns (s ! r)" and "r < length s"
  shows "\<exists>c x y s'. limpiarDatos r s = (Inr (c, x, y), s') \<and>
     rows_of (s' ! c) =
       spec_collapse_education (spec_drop_code0 (spec_drop_missing (spec_drop_id
         (spec_rename_label (rows_of (s ! r)))))) \<and>
     column_names (s' ! c) =
       filter (\<lambda>n. n \<noteq> ''ID'')
         (map (\<lambda>n. if n = ''default payment next month'' then ''default'' else n)
            (column_names (s ! r))) \<and>
     map_option category (map_of (df_columns (s' ! c)) ''EDUCATION'') = Some True \<and>
     rows_of (s' ! x) = spec_features (rows_of (s' ! c)) \<and>
     column_names (s' ! x) = filter (\<lambda>n. n \<noteq> ''default'') (column_names (s' ! c)) \<and>
     zip (s_index y) (map Some (s_vals y)) = spec_labels (rows_of (s' ! c)) \<and>
     length (s_index y) = length (s_vals y)"
proof -
  from limpiarDatos_expected [OF assms] obtain c x y s'
    where run: "limpiarDatos r s = (Inr (c, x, y), s')" by blast
  note f = limpiarDatos_facts [OF assms run]
  have "rn = (\<lambda>n. if n = ''default payment next month'' then ''default'' else n)"
    by (simp add: rn_def fun_eq_iff)
  with f show ?thesis
    by (intro exI conjI) (rule run, simp_all add: spec_clean_def nrows_def)
qed

theorem limpiarDatos_steps_in_order_witness:
  "expected_columns ([raw_example] ! 0) \<and> (0::nat) < length [raw_example] \<and>
   (\<exists>c x y s'. limpiarDatos 0 [raw_example] = (Inr (c, x, y), s') \<and>
      rows_of (s' ! c) =
        [(0, [(''LIMIT_BAL'', Num 100), (''EDUCATION'', Num 1), (''MARRIAGE'', Num 1), (''default'', Num 1)]),
         (2, [(''LIMIT_BAL'', Num 300), (''EDUCATION'', Num 4), (''MARRIAGE'', Num 2), (''default'', Num 1)]),
         (5, [(''LIMIT_BAL'', Num 600), (''EDUCATION'', Num 4), (''MARRIAGE'', Num 3), (''default'', Num 0)])])"
proof -
  have len: "(0::nat) < length [raw_example]" by simp
  from limpiarDatos_steps_in_order [OF example_expected len] obtain c x y s'
    where "limpiarDatos 0 [raw_example] = (Inr (c, x, y), s')"
      and "rows_of (s' ! c) = spec_clean (rows_of ([raw_example] ! 0))"
    unfolding spec_clean_def by blast
  then show ?thesis
    using example_expected len unfolding example_cleaned by blast
qed

text \<open>
  C9. The cleaner leaves every frame that existed before the call as it was, the caller's
  input among them, whether it returns or raises; the frames it returns are new objects.
\<close>

theorem limpiarDatos_input_unchanged:
  "take (length s) (snd (limpiarDatos r s)) = s \<and>
   (\<forall>c x y. fst (limpiarDatos r s) = Inr (c, x, y) \<longrightarrow> length s \<le> c \<and> length s \<le> x \<and> c \<noteq> x)"
  unfolding limpiarDatos_def alloc_def Let_def
  by (simp add: or_raise_def split: sum.splits)

theorem limpiarDatos_input_unchanged_witness:
  "fst (limpiarDatos 0 [raw_example]) =
     Inr (5, 6, \<lparr>s_index = [0, 2, 5], s_vals = [Num 1, Num 1, Num 0], s_category = False\<rparr>) \<and>
   take (length [raw_example]) (snd (limpiarDatos 0 [raw_example])) = [raw_example] \<and>
   length [raw_example] \<le> (5::nat) \<and> length [raw_example] \<le> (6::nat)"
  using limpiarDatos_input_unchanged [of "[raw_example]" 0] example_run
  by (simp add: prod_eq_iff)


lemma spec_collapse_0: "spec_collapse v = Num 0 \<longleftrightarrow> v = Num 0"
  by (cases v) (simp_all add: spec_collapse_def)

text \<open>
  The record at position \<open>k\<close> of the cleaned frame comes from one raw position, and with
  distinct row labels the label tells which.
\<close>

lemma cleaned_row_origin:
  assumes "expected_columns (s ! r)" and "r < length s"
    and "limpiarDatos r s = (Inr (c, x, y), s')" and "k < nrows (s' ! c)"
  shows "\<exists>q < nrows (s ! r). keeps_row (row_at (s ! r) q) \<and>
           df_index (s' ! c) ! k = df_index (s ! r) ! q \<and>
           cell_at (s' ! c) ''EDUCATION'' k = map_option spec_collapse (cell_at (s ! r) ''EDUCATION'' q) \<and>
           cell_at (s' ! c) ''MARRIAGE'' k = cell_at (s ! r) ''MARRIAGE'' q"
proof -
  let ?ps = "filter (\<lambda>p. keeps_row (row_at (s ! r) p)) [0..<nrows (s ! r)]"
  let ?q = "?ps ! k"
  note sv = limpiarDatos_survivors [OF assms(1-3)]
  have row: "rows_of (s' ! c) ! k = clean_row (row_at (s ! r) ?q)"
    using assms(4) by (rule sv(2))
  have "df_index (s' ! c) ! k = df_index (s ! r) ! ?q"
    using assms(4) by (simp add: index_row row clean_row_def) (simp add: row_at_def)
  moreover have "cell_at (s' ! c) ''EDUCATION'' k = map_option spec_collapse (cell_at (s ! r) ''EDUCATION'' ?q)"
    using assms(4) by (simp add: cell_at_row row map_of_clean_row map_of_row_at)
  moreover have "cell_at (s' ! c) ''MARRIAGE'' k = cell_at (s ! r) ''MARRIAGE'' ?q"
    using assms(4) by (simp add: cell_at_row row map_of_clean_row map_of_row_at option.map_ident)
  ultimately show ?thesis
    using sv(3) [OF assms(4)] by blast
qed

lemma cleaned_row_origin_label:
  assumes "expected_columns (s ! r)" and "r < length s" and "distinct (df_index (s ! r))"
    and "limpiarDatos r s = (Inr (c, x, y), s')" and "k < nrows (s' ! c)"
    and "p < nrows (s ! r)" and "df_index (s' ! c) ! k = df_index (s ! r) ! p"
  shows "keeps_row (row_at (s ! r) p)"
    and "cell_at (s' ! c) ''EDUCATION'' k = map_option spec_collapse (cell_at (s ! r) ''EDUCATION'' p)"
    and "cell_at (s' ! c) ''MARRIAGE'' k = cell_at (s ! r) ''MARRIAGE'' p"
proof -
  from cleaned_row_origin [OF assms(1,2,4,5)] obtain q where q: "q < nrows (s ! r)"
    and k: "keeps_row (row_at (s ! r) q)"
    and i: "df_index (s' ! c) ! k = df_index (s ! r) ! q"
    and e: "cell_at (s' ! c) ''EDUCATION'' k = map_option spec_collapse (cell_at (s ! r) ''EDUCATION'' q)"
    and m: "cell_at (s' ! c) ''MARRIAGE'' k = cell_at (s ! r) ''MARRIAGE'' q"
    by blast
  from i assms(7) have "df_index (s ! r) ! q = df_index (s ! r) ! p" by simp
  with assms(3,6) q have "q = p"
    by (simp add: nth_eq_iff_index_eq nrows_def)
  with k e m show "keeps_row (row_at (s ! r) p)"
    and "cell_at (s' ! c) ''EDUCATION'' k = map_option spec_collapse (cell_at (s ! r) ''EDUCATION'' p)"
    and "cell_at (s' ! c) ''MARRIAGE'' k = cell_at (s ! r) ''MARRIAGE'' p"
    by simp_all
qed

lemma keeps_row_codes:
  "keeps_row (row_at df p) \<Longrightarrow>
     cell_at df ''EDUCATION'' p \<noteq> Some (Num 0) \<and> cell_at df ''MARRIAGE'' p \<noteq> Some (Num 0)"
  by (simp add: keeps_row_def code_known_def map_of_row_at)

text \<open>
  C2. A raw row whose education code or marital-status code is 0 is not in the cleaned frame,
  nor in X, nor in y: its row label occurs in none of the three indexes, and no row of the
  cleaned frame or of X carries the code 0 in either column.
\<close>

theorem limpiarDatos_excludes_code0:
  assumes "expected_columns (s ! r)" and "r < length s" and "distinct (df_index (s ! r))"
    and "limpiarDatos r s = (Inr (c, x, y), s')"
    and "p < nrows (s ! r)"
    and "cell_at (s ! r) ''EDUCATION'' p = Some (Num 0) \<or> cell_at (s ! r) ''MARRIAGE'' p = Some (Num 0)"
  shows "df_index (s ! r) ! p \<notin> set (df_index (s' ! c)) \<and>
         df_index (s ! r) ! p \<notin> set (df_index (s' ! x)) \<and>
         df_index (s ! r) ! p \<notin> set (s_index y) \<and>
         (\<forall>k < nrows (s' ! c).
            cell_at (s' ! c) ''EDUCATION'' k \<noteq> Some (Num 0) \<and>
            cell_at (s' ! c) ''MARRIAGE'' k \<noteq> Some (Num 0) \<and>
            cell_at (s' ! x) ''EDUCATION'' k \<noteq> Some (Num 0) \<and>
            cell_at (s' ! x) ''MARRIAGE'' k \<noteq> Some (Num 0))"
proof -
  note f = limpiarDatos_facts [OF assms(1,2,4)]
  have out: "df_index (s ! r) ! p \<notin> set (df_index (s' ! c))"
  proof
    assume "df_index (s ! r) ! p \<in> set (df_index (s' ! c))"
    then obtain k where k: "k < nrows (s' ! c)"
      and "df_index (s' ! c) ! k = df_index (s ! r) ! p"
      by (auto simp: in_set_conv_nth nrows_def)
    then have "keeps_row (row_at (s ! r) p)"
      using cleaned_row_origin_label(1) [OF assms(1-4) k assms(5)] by simp
    with assms(6) show False
      by (auto dest: keeps_row_codes)
  qed
  have codes: "cell_at (s' ! c) ''EDUCATION'' k \<noteq> Some (Num 0) \<and>
            cell_at (s' ! c) ''MARRIAGE'' k \<noteq> Some (Num 0)" if "k < nrows (s' ! c)" for k
  proof -
    from cleaned_row_origin [OF assms(1,2,4) that] obtain q
      where "keeps_row (row_at (s ! r) q)"
        and "cell_at (s' ! c) ''EDUCATION'' k = map_option spec_collapse (cell_at (s ! r) ''EDUCATION'' q)"
        and "cell_at (s' ! c) ''MARRIAGE'' k = cell_at (s ! r) ''MARRIAGE'' q"
      by blast
    then show ?thesis
      using keeps_row_codes [of "s ! r" q] by (auto simp: spec_collapse_0)
  qed
  have "cell_at (s' ! x) ''EDUCATION'' k = cell_at (s' ! c) ''EDUCATION'' k \<and>
        cell_at (s' ! x) ''MARRIAGE'' k = cell_at (s' ! c) ''MARRIAGE'' k" if "k < nrows (s' ! c)" for k
    using cell_features [OF assms(1,2,4) that] by simp
  with codes out show ?thesis
    by (simp add: f(7,8))
qed

theorem limpiarDatos_excludes_code0_witness:
  "expected_columns ([raw_example] ! 0) \<and> distinct (df_index ([raw_example] ! 0)) \<and>
   1 < nrows ([raw_example] ! 0) \<and>
   cell_at ([raw_example] ! 0) ''EDUCATION'' 1 = Some (Num 0) \<and>
   df_index ([raw_example] ! 0) ! 1 \<notin> set (df_index (snd (limpiarDatos 0 [raw_example]) ! 5)) \<and>
   df_index ([raw_example] ! 0) ! 1 \<notin> set (df_index (snd (limpiarDatos 0 [raw_example]) ! 6))"
proof -
  have len: "(0::nat) < length [raw_example]" by simp
  have d: "distinct (df_index ([raw_example] ! 0))" by code_simp
  have p: "1 < nrows ([raw_example] ! 0)" by code_simp
  have e: "cell_at ([raw_example] ! 0) ''EDUCATION'' 1 = Some (Num 0)" by code_simp
  then have e': "cell_at ([raw_example] ! 0) ''EDUCATION'' 1 = Some (Num 0) \<or>
                 cell_at ([raw_example] ! 0) ''MARRIAGE'' 1 = Some (Num 0)" ..
  from limpiarDatos_excludes_code0 [OF example_expected len d example_run p e'] d p e
  show ?thesis
    using example_expected by blast
qed


text \<open>
  C3. For a raw row that survives cleaning, found in the cleaned frame under its row label:
  an education code of 4 or more has become 4, and a code of 1, 2 or 3 is unchanged, in the
  cleaned frame and in X alike.
\<close>

theorem limpiarDatos_collapses_education:
  assumes "expected_columns (s ! r)" and "r < length s" and "distinct (df_index (s ! r))"
    and "limpiarDatos r s = (Inr (c, x, y), s')"
    and "p < nrows (s ! r)" and "k < nrows (s' ! c)"
    and "df_index (s' ! c) ! k = df_index (s ! r) ! p"
    and "cell_at (s ! r) ''EDUCATION'' p = Some (Num e)"
  shows "(4 \<le> e \<longrightarrow> cell_at (s' ! c) ''EDUCATION'' k = Some (Num 4) \<and>
                     cell_at (s' ! x) ''EDUCATION'' k = Some (Num 4)) \<and>
         (e \<in> {1, 2, 3} \<longrightarrow> cell_at (s' ! c) ''EDUCATION'' k = Some (Num e) \<and>
                     cell_at (s' ! x) ''EDUCATION'' k = Some (Num e))"
proof -
  have "cell_at (s' ! c) ''EDUCATION'' k = Some (spec_collapse (Num e))"
    using cleaned_row_origin_label(2) [OF assms(1-4,6,5,7)] assms(8) by simp
  moreover have "cell_at (s' ! x) ''EDUCATION'' k = cell_at (s' ! c) ''EDUCATION'' k"
    using cell_features [OF assms(1,2,4,6)] by simp
  ultimately show ?thesis
    by (auto simp: spec_collapse_def)
qed

theorem limpiarDatos_collapses_education_witness:
  "expected_columns ([raw_example] ! 0) \<and> distinct (df_index ([raw_example] ! 0)) \<and>
   df_index (snd (limpiarDatos 0 [raw_example]) ! 5) ! 1 = df_index ([raw_example] ! 0) ! 2 \<and>
   cell_at ([raw_example] ! 0) ''EDUCATION'' 2 = Some (Num 5) \<and>
   cell_at (snd (limpiarDatos 0 [raw_example]) ! 5) ''EDUCATION'' 1 = Some (Num 4) \<and>
   cell_at (snd (limpiarDatos 0 [raw_example]) ! 6) ''EDUCATION'' 1 = Some (Num 4) \<and>
   df_index (snd (limpiarDatos 0 [raw_example]) ! 5) ! 0 = df_index ([raw_example] ! 0) ! 0 \<and>
   cell_at ([raw_example] ! 0) ''EDUCATION'' 0 = Some (Num 1) \<and>
   cell_at (snd (limpiarDatos 0 [raw_example]) ! 5) ''EDUCATION'' 0 = Some (Num 1) \<and>
   cell_at (snd (limpiarDatos 0 [raw_example]) ! 6) ''EDUCATION'' 0 = Some (Num 1)"
proof -
  have len: "(0::nat) < length [raw_example]" by simp
  have d: "distinct (df_index ([raw_example] ! 0))" by code_simp
  have p2: "2 < nrows ([raw_example] ! 0)" and p0: "0 < nrows ([raw_example] ! 0)" by code_simp+
  have k1: "1 < nrows (snd (limpiarDatos 0 [raw_example]) ! 5)"
    and k0: "0 < nrows (snd (limpiarDatos 0 [raw_example]) ! 5)"
    unfolding example_frames by code_simp+
  have i1: "df_index (snd (limpiarDatos 0 [raw_example]) ! 5) ! 1 = df_index ([raw_example] ! 0) ! 2"
    and i0: "df_index (snd (limpiarDatos 0 [raw_example]) ! 5) ! 0 = df_index ([raw_example] ! 0) ! 0"
    unfolding example_frames by code_simp+
  have e2: "cell_at ([raw_example] ! 0) ''EDUCATION'' 2 = Some (Num 5)"
    and e0: "cell_at ([raw_example] ! 0) ''EDUCATION'' 0 = Some (Num 1)" by code_simp+
  from limpiarDatos_collapses_education [OF example_expected len d example_run p2 k1 i1 e2]
    limpiarDatos_collapses_education [OF example_expected len d example_run p0 k0 i0 e0]
  show ?thesis
    using example_expected d i1 i0 e2 e0 by simp
qed

text \<open>
  C4. The cleaned frame, X and y have the same number of rows and the same row labels in
  the same order. The surviving rows keep their relative order: the row labels of the
  result are a subsequence of the input's, and row \<open>k\<close> of the result is the record found
  at the \<open>k\<close>-th of a strictly increasing list of raw positions. Row by row, y holds the
  \<open>default\<close> cell of the cleaned record and X its other cells.
\<close>

theorem limpiarDatos_rows_aligned:
  assumes "expected_columns (s ! r)" and "r < length s"
    and "limpiarDatos r s = (Inr (c, x, y), s')"
  shows "nrows (s' ! x) = nrows (s' ! c) \<and> length (s_vals y) = nrows (s' ! c) \<and>
         length (s_index y) = nrows (s' ! c) \<and>
         df_index (s' ! x) = df_index (s' ! c) \<and> s_index y = df_index (s' ! c) \<and>
         subseq (df_index (s' ! c)) (df_index (s ! r)) \<and>
         (\<exists>ps. sorted_wrt (<) ps \<and> length ps = nrows (s' ! c) \<and>
            (\<forall>k < nrows (s' ! c). ps ! k < nrows (s ! r) \<and>
               row_at (s' ! c) k = clean_row (row_at (s ! r) (ps ! k)))) \<and>
         (\<forall>k < nrows (s' ! c).
            cell_at (s' ! c) ''default'' k = Some (s_vals y ! k) \<and>
            (\<forall>name. name \<noteq> ''default'' \<longrightarrow> cell_at (s' ! x) name k = cell_at (s' ! c) name k))"
proof -
  note f = limpiarDatos_facts [OF assms]
  note sv = limpiarDatos_survivors [OF assms]
  let ?ps = "filter (\<lambda>p. keeps_row (row_at (s ! r) p)) [0..<nrows (s ! r)]"
  have "subseq (map fst (rows_of (s' ! c))) (map fst (rows_of (s ! r)))"
    unfolding f(1) by (rule spec_clean_subseq)
  then have sub: "subseq (df_index (s' ! c)) (df_index (s ! r))"
    by (simp only: index_rows_of)
  have "sorted_wrt (<) ?ps \<and> length ?ps = nrows (s' ! c) \<and>
            (\<forall>k < nrows (s' ! c). ?ps ! k < nrows (s ! r) \<and>
               row_at (s' ! c) k = clean_row (row_at (s ! r) (?ps ! k)))"
    using sv(1) sv(2) sv(3) by (simp add: sorted_wrt_filter_upt rows_of_nth)
  then have ps: "\<exists>ps. sorted_wrt (<) ps \<and> length ps = nrows (s' ! c) \<and>
            (\<forall>k < nrows (s' ! c). ps ! k < nrows (s ! r) \<and>
               row_at (s' ! c) k = clean_row (row_at (s ! r) (ps ! k)))"
    by (rule exI)
  have cells: "\<forall>k < nrows (s' ! c).
            cell_at (s' ! c) ''default'' k = Some (s_vals y ! k) \<and>
            (\<forall>name. name \<noteq> ''default'' \<longrightarrow> cell_at (s' ! x) name k = cell_at (s' ! c) name k)"
    using cell_labels [OF assms] cell_features [OF assms] by blast
  from f(7,8,9) sub ps cells show ?thesis
    by (simp add: nrows_def)
qed

theorem limpiarDatos_rows_aligned_witness:
  "expected_columns ([raw_example] ! 0) \<and> (0::nat) < length [raw_example] \<and>
   nrows (snd (limpiarDatos 0 [raw_example]) ! 6) = nrows (snd (limpiarDatos 0 [raw_example]) ! 5) \<and>
   nrows (snd (limpiarDatos 0 [raw_example]) ! 5) = 3 \<and>
   df_index (snd (limpiarDatos 0 [raw_example]) ! 6) = df_index (snd (limpiarDatos 0 [raw_example]) ! 5) \<and>
   subseq (df_index (snd (limpiarDatos 0 [raw_example]) ! 5)) (df_index ([raw_example] ! 0)) \<and>
   cell_at (snd (limpiarDatos 0 [raw_example]) ! 5) ''default'' 2 = Some (Num 0)"
proof -
  have len: "(0::nat) < length [raw_example]" by simp
  have n: "nrows (snd (limpiarDatos 0 [raw_example]) ! 5) = 3"
    unfolding example_frames by code_simp
  from limpiarDatos_rows_aligned [OF example_expected len example_run]
  show ?thesis
    using example_expected n by simp
qed

section \<open>Properties of the library metrics\<close>


lemma set_unique_labels [simp]: "set (unique_labels yt yp) = set yt \<union> set yp"
  by (simp add: unique_labels_def)

lemma length_unique_labels: "length (unique_labels yt yp) = card (set yt \<union> set yp)"
  by (simp add: unique_labels_def length_remdups_card_conv)

lemma binary_labels_card:
  assumes "set yt \<union> set yp \<subseteq> {0, 1 :: int}"
  shows "card (set yt \<union> set yp) \<le> 2"
proof -
  have "card (set yt \<union> set yp) \<le> card {0, 1 :: int}"
    using assms by (intro card_mono) simp_all
  then show ?thesis by simp
qed

lemma check_binary_targets_ok:
  assumes "length yp = length yt" and "set yt \<union> set yp \<subseteq> {0, 1}"
  shows "check_binary_targets yt yp = Inr ()"
proof -
  have "card (set yt \<union> set yp) \<le> 1" if "1 \<notin> set yt \<union> set yp"
  proof -
    from that assms(2) have "set yt \<union> set yp \<subseteq> {0}" by auto
    then have "card (set yt \<union> set yp) \<le> card {0 :: int}"
      by (intro card_mono) simp_all
    then show ?thesis by simp
  qed
  then show ?thesis
    using assms(1) binary_labels_card [OF assms(2)]
    by (auto simp: check_binary_targets_def Let_def length_unique_labels)
qed

lemma count_pairs_0:
  "(\<And>t p. (t, p) \<in> set (zip yt yp) \<Longrightarrow> \<not> P t p) \<Longrightarrow> count_pairs yt yp P = 0"
  by (auto simp: count_pairs_def filter_empty_conv)

lemma no_positive_counts:
  assumes "1 \<notin> set yp \<or> 1 \<notin> set yt"
  shows "true_pos yt yp = 0"
  using assms unfolding true_pos_def
  by (intro count_pairs_0) (auto dest: set_zip_leftD set_zip_rightD)

lemma prf_divide_0 [simp]: "prf_divide 0 den (ZD_value (Float 0)) = Float 0"
  by (simp add: prf_divide_def)

lemma scores_ok:
  assumes "length yp = length yt" and "set yt \<union> set yp \<subseteq> {0, 1}"
  shows "precision_score yt yp zd =
           Inr (prf_divide (true_pos yt yp) (true_pos yt yp + false_pos yt yp) zd)"
    and "recall_score yt yp zd =
           Inr (prf_divide (true_pos yt yp) (true_pos yt yp + false_neg yt yp) zd)"
    and "f1_score yt yp zd =
           Inr (prf_divide (2 * true_pos yt yp)
                  (2 * true_pos yt yp + false_neg yt yp + false_pos yt yp) zd)"
    and "\<exists>b. balanced_accuracy_score yt yp = Inr b"
  using check_binary_targets_ok [OF assms] assms(1)
  by (simp_all add: precision_score_def recall_score_def f1_score_def ebind_def
      balanced_accuracy_score_def confusion_matrix_def Let_def)


lemma or_raise_Inr [simp]: "or_raise (Inr v) s k = k v"
  by (simp add: or_raise_def)

lemma or_raise_Inl [simp]: "or_raise (Inl e) s k = (Inl e, s)"
  by (simp add: or_raise_def)

lemma metricas_binary:
  assumes "predict x_train st = (pred_train, st1)" and "predict x_test st1 = (pred_test, st2)"
    and "length pred_train = length y_train" and "length pred_test = length y_test"
    and "set y_train \<union> set pred_train \<subseteq> {0, 1}" and "set y_test \<union> set pred_test \<subseteq> {0, 1}"
  shows "\<exists>b_train b_test. metricas predict x_train y_train x_test y_test st =
     (Inr (\<lparr>m_type = ''metrics'', m_dataset = ''train'',
            m_precision = prf_divide (true_pos y_train pred_train)
               (true_pos y_train pred_train + false_pos y_train pred_train) (ZD_value (Float 0)),
            m_balanced_accuracy = b_train,
            m_recall = prf_divide (true_pos y_train pred_train)
               (true_pos y_train pred_train + false_neg y_train pred_train) (ZD_value (Float 0)),
            m_f1_score = prf_divide (2 * true_pos y_train pred_train)
               (2 * true_pos y_train pred_train + false_neg y_train pred_train +
                false_pos y_train pred_train) (ZD_value (Float 0))\<rparr>,
           \<lparr>m_type = ''metrics'', m_dataset = ''test'',
            m_precision = prf_divide (true_pos y_test pred_test)
               (true_pos y_test pred_test + false_pos y_test pred_test) (ZD_value (Float 0)),
            m_balanced_accuracy = b_test,
            m_recall = prf_divide (true_pos y_test pred_test)
               (true_pos y_test pred_test + false_neg y_test pred_test) (ZD_value (Float 0)),
            m_f1_score = prf_divide (2 * true_pos y_test pred_test)
               (2 * true_pos y_test pred_test + false_neg y_test pred_test +
                false_pos y_test pred_test) (ZD_value (Float 0))\<rparr>), st2)"
proof -
  from scores_ok(4) [OF assms(3,5)] obtain b_train
    where b1: "balanced_accuracy_score y_train pred_train = Inr b_train" ..
  from scores_ok(4) [OF assms(4,6)] obtain b_test
    where b2: "balanced_accuracy_score y_test pred_test = Inr b_test" ..
  show ?thesis
    by (simp add: metricas_def assms(1,2) b1 b2 scores_ok(1-3) [OF assms(3,5)]
        scores_ok(1-3) [OF assms(4,6)])
qed


subsection \<open>The confusion matrix of a split\<close>

lemma unique_labels_sorted_list: "unique_labels yt yp = sorted_list_of_set (set yt \<union> set yp)"
  using sorted_list_of_set_sort_remdups [of "yt @ yp"] by (simp add: unique_labels_def)

lemma unique_labels_both: "set yt \<union> set yp = {0, 1} \<Longrightarrow> unique_labels yt yp = [0, 1]"
  by (simp add: unique_labels_sorted_list)

lemma unique_labels_single: "set yt \<union> set yp = {a} \<Longrightarrow> unique_labels yt yp = [a]"
  by (simp add: unique_labels_sorted_list)

lemma unique_labels_none: "set yt \<union> set yp = {} \<Longrightarrow> unique_labels yt yp = []"
  by (simp add: unique_labels_sorted_list)

lemma binary_cases:
  assumes "S \<subseteq> {0, 1 :: int}"
  shows "S = {0, 1} \<or> S = {0} \<or> S = {1} \<or> S = {}"
  using assms by blast

lemma count_pairs_all:
  assumes "length yp = length yt" and "set yt \<union> set yp = {a}"
  shows "count_pairs yt yp (\<lambda>t p. t = a \<and> p = a) = length yt"
proof -
  have "filter (\<lambda>(t, p). t = a \<and> p = a) (zip yt yp) = zip yt yp"
    using assms(2) by (intro filter_True) (auto dest: set_zip_leftD set_zip_rightD)
  then show ?thesis using assms(1) by (simp add: count_pairs_def)
qed

lemma four_cells_sum:
  fixes xs :: "(int \<times> int) list"
  assumes "\<forall>(t, p) \<in> set xs. (t = 0 \<or> t = 1) \<and> (p = 0 \<or> p = 1)"
  shows "length (filter (\<lambda>(t, p). t = 0 \<and> p = 0) xs) + length (filter (\<lambda>(t, p). t = 0 \<and> p = 1) xs) +
         length (filter (\<lambda>(t, p). t = 1 \<and> p = 0) xs) + length (filter (\<lambda>(t, p). t = 1 \<and> p = 1) xs) =
         length xs"
  using assms
proof (induction xs)
  case Nil
  show ?case by simp
next
  case (Cons x xs)
  obtain t p where x: "x = (t, p)" by (cases x)
  from Cons.prems have tp: "(t = 0 \<or> t = 1) \<and> (p = 0 \<or> p = 1)"
    and rest: "\<forall>(t, p) \<in> set xs. (t = 0 \<or> t = 1) \<and> (p = 0 \<or> p = 1)"
    by (simp_all add: x)
  from Cons.IH [OF rest] tp show ?case
    by (auto simp: x)
qed

lemma count_pairs_sum:
  assumes "length yp = length yt" and "set yt \<union> set yp \<subseteq> {0, 1}"
  shows "count_pairs yt yp (\<lambda>t p. t = 0 \<and> p = 0) + count_pairs yt yp (\<lambda>t p. t = 0 \<and> p = 1) +
         count_pairs yt yp (\<lambda>t p. t = 1 \<and> p = 0) + count_pairs yt yp (\<lambda>t p. t = 1 \<and> p = 1) =
         length yt"
proof -
  have "\<forall>(t, p) \<in> set (zip yt yp). (t = 0 \<or> t = 1) \<and> (p = 0 \<or> p = 1)"
    using assms(2) by (auto dest: set_zip_leftD set_zip_rightD)
  from four_cells_sum [OF this] show ?thesis
    using assms(1) by (simp add: count_pairs_def)
qed

lemma confusion_matrix_both:
  assumes "length yp = length yt" and "set yt \<union> set yp = {0, 1}"
  shows "confusion_matrix yt yp =
     Inr [[count_pairs yt yp (\<lambda>t p. t = 0 \<and> p = 0), count_pairs yt yp (\<lambda>t p. t = 0 \<and> p = 1)],
          [count_pairs yt yp (\<lambda>t p. t = 1 \<and> p = 0), count_pairs yt yp (\<lambda>t p. t = 1 \<and> p = 1)]]"
  using assms by (simp add: confusion_matrix_def unique_labels_both)

lemma confusion_matrix_single:
  assumes "length yp = length yt" and "set yt \<union> set yp = {a}"
  shows "confusion_matrix yt yp = Inr [[length yt]]"
  using assms by (simp add: confusion_matrix_def unique_labels_single count_pairs_all)

lemma confusion_matrix_none:
  assumes "length yp = length yt" and "set yt \<union> set yp = {}"
  shows "confusion_matrix yt yp = Inr []"
  using assms by (simp add: confusion_matrix_def unique_labels_none)

text \<open>Reading the four cells of a matrix, as the function does for each split.\<close>

lemma confusion_matrix_small:
  assumes "length yp = length yt" and "set yt \<union> set yp \<subseteq> {0, 1}" and "set yt \<union> set yp \<noteq> {0, 1}"
  shows "confusion_matrix yt yp = Inr [[length yt]] \<or> confusion_matrix yt yp = Inr []"
  using binary_cases [OF assms(2)] assms(3)
    confusion_matrix_single [OF assms(1)] confusion_matrix_none [OF assms(1)]
  by blast

lemma matrizConfusion_both:
  assumes "predict x_train st = (pred_train, st1)" and "predict x_test st1 = (pred_test, st2)"
    and "length pred_train = length y_train" and "length pred_test = length y_test"
    and "set y_train \<union> set pred_train = {0, 1}" and "set y_test \<union> set pred_test = {0, 1}"
  shows "matrizConfusion predict x_train y_train x_test y_test st =
     (Inr (\<lparr>cm_type = ''cm_matrix'', cm_dataset = ''train'',
            true_0 = \<lparr>predicted_0 = int (count_pairs y_train pred_train (\<lambda>t p. t = 0 \<and> p = 0)),
                      predicted_1 = int (count_pairs y_train pred_train (\<lambda>t p. t = 0 \<and> p = 1))\<rparr>,
            true_1 = \<lparr>predicted_0 = int (count_pairs y_train pred_train (\<lambda>t p. t = 1 \<and> p = 0)),
                      predicted_1 = int (count_pairs y_train pred_train (\<lambda>t p. t = 1 \<and> p = 1))\<rparr>\<rparr>,
           \<lparr>cm_type = ''cm_matrix'', cm_dataset = ''test'',
            true_0 = \<lparr>predicted_0 = int (count_pairs y_test pred_test (\<lambda>t p. t = 0 \<and> p = 0)),
                      predicted_1 = int (count_pairs y_test pred_test (\<lambda>t p. t = 0 \<and> p = 1))\<rparr>,
            true_1 = \<lparr>predicted_0 = int (count_pairs y_test pred_test (\<lambda>t p. t = 1 \<and> p = 0)),
                      predicted_1 = int (count_pairs y_test pred_test (\<lambda>t p. t = 1 \<and> p = 1))\<rparr>\<rparr>),
      st2)"
  by (simp add: matrizConfusion_def assms(1,2) confusion_matrix_both [OF assms(3,5)]
      confusion_matrix_both [OF assms(4,6)] cm_getitem_def)

lemma matrizConfusion_small:
  assumes "predict x_train st = (pred_train, st1)" and "predict x_test st1 = (pred_test, st2)"
    and "length pred_train = length y_train" and "length pred_test = length y_test"
    and "set y_train \<union> set pred_train \<subseteq> {0, 1}" and "set y_test \<union> set pred_test \<subseteq> {0, 1}"
    and "\<not> (set y_train \<union> set pred_train = {0, 1} \<and> set y_test \<union> set pred_test = {0, 1})"
  shows "matrizConfusion predict x_train y_train x_test y_test st = (Inl IndexError, st2)"
proof (cases "set y_train \<union> set pred_train = {0, 1}")
  case True
  with assms(7) have test: "set y_test \<union> set pred_test \<noteq> {0, 1}" by simp
  from confusion_matrix_small [OF assms(4,6) test] show ?thesis
    by (auto simp: matrizConfusion_def assms(1,2) confusion_matrix_both [OF assms(3) True]
        cm_getitem_def)
next
  case False
  have "\<exists>cm. confusion_matrix y_test pred_test = Inr cm"
    using assms(4) by (simp add: confusion_matrix_def Let_def)
  then obtain cm where cm: "confusion_matrix y_test pred_test = Inr cm" ..
  from confusion_matrix_small [OF assms(3,5) False] show ?thesis
    by (auto simp: matrizConfusion_def assms(1,2) cm cm_getitem_def)
qed

section \<open>Claims about the metrics reporter\<close>

text \<open>
  C5. For label vectors over the classes 0 and 1 and predictions of the same length, the
  reporter returns both records, and in the record of a split without positive
  predictions or without positive actuals the precision, the recall and the F1 score are
  the float 0: not NaN, and no exception is raised.
\<close>

theorem metricas_zero_division:
  assumes "predict x_train st = (pred_train, st1)" and "predict x_test st1 = (pred_test, st2)"
    and "length pred_train = length y_train" and "length pred_test = length y_test"
    and "set y_train \<union> set pred_train \<subseteq> {0, 1}" and "set y_test \<union> set pred_test \<subseteq> {0, 1}"
  shows "\<exists>m_train m_test.
     metricas predict x_train y_train x_test y_test st = (Inr (m_train, m_test), st2) \<and>
     (1 \<notin> set pred_train \<or> 1 \<notin> set y_train \<longrightarrow>
        m_precision m_train = Float 0 \<and> m_recall m_train = Float 0 \<and> m_f1_score m_train = Float 0) \<and>
     (1 \<notin> set pred_test \<or> 1 \<notin> set y_test \<longrightarrow>
        m_precision m_test = Float 0 \<and> m_recall m_test = Float 0 \<and> m_f1_score m_test = Float 0)"
proof -
  from metricas_binary [where predict = predict, OF assms] obtain b_train b_test where
    "metricas predict x_train y_train x_test y_test st =
     (Inr (\<lparr>m_type = ''metrics'', m_dataset = ''train'',
            m_precision = prf_divide (true_pos y_train pred_train)
               (true_pos y_train pred_train + false_pos y_train pred_train) (ZD_value (Float 0)),
            m_balanced_accuracy = b_train,
            m_recall = prf_divide (true_pos y_train pred_train)
               (true_pos y_train pred_train + false_neg y_train pred_train) (ZD_value (Float 0)),
            m_f1_score = prf_divide (2 * true_pos y_train pred_train)
               (2 * true_pos y_train pred_train + false_neg y_train pred_train +
                false_pos y_train pred_train) (ZD_value (Float 0))\<rparr>,
           \<lparr>m_type = ''metrics'', m_dataset = ''test'',
            m_precision = prf_divide (true_pos y_test pred_test)
               (true_pos y_test pred_test + false_pos y_test pred_test) (ZD_value (Float 0)),
            m_balanced_accuracy = b_test,
            m_recall = prf_divide (true_pos y_test pred_test)
               (true_pos y_test pred_test + false_neg y_test pred_test) (ZD_value (Float 0)),
            m_f1_score = prf_divide (2 * true_pos y_test pred_test)
               (2 * true_pos y_test pred_test + false_neg y_test pred_test +
                false_pos y_test pred_test) (ZD_value (Float 0))\<rparr>), st2)"
    by blast
  then show ?thesis
    by (auto simp: no_positive_counts)
qed

theorem metricas_zero_division_witness:
  "(\<lambda>x st. (x, st)) [0, 0, 0 :: int] () = ([0, 0, 0], ()) \<and>
   length [0, 0, 0 :: int] = length [0, 1, 1 :: int] \<and>
   set [0, 1, 1] \<union> set [0, 0, 0] \<subseteq> {0, 1 :: int} \<and> 1 \<notin> set [0, 0, 0 :: int] \<and>
   (\<exists>m_train m_test.
      metricas (\<lambda>x st. (x, st)) [0, 0, 0] [0, 1, 1] [0, 0] [0, 0] () = (Inr (m_train, m_test), ()) \<and>
      m_precision m_train = Float 0 \<and> m_recall m_train = Float 0 \<and> m_f1_score m_train = Float 0 \<and>
      m_precision m_test = Float 0 \<and> m_recall m_test = Float 0 \<and> m_f1_score m_test = Float 0)"
proof -
  have p1: "(\<lambda>x st. (x, st)) [0, 0, 0 :: int] () = ([0, 0, 0], ())"
    and p2: "(\<lambda>x st. (x, st)) [0, 0 :: int] () = ([0, 0], ())" by simp_all
  have l1: "length [0, 0, 0 :: int] = length [0, 1, 1 :: int]"
    and l2: "length [0, 0 :: int] = length [0, 0 :: int]" by simp_all
  have b1: "set [0, 1, 1] \<union> set [0, 0, 0] \<subseteq> {0, 1 :: int}"
    and b2: "set [0, 0] \<union> set [0, 0] \<subseteq> {0, 1 :: int}" by simp_all
  from metricas_zero_division [of "\<lambda>x st. (x, st)", OF p1 p2 l1 l2 b1 b2]
  show ?thesis by auto
qed

text \<open>
  C10. The function reads the cells (0,0), (0,1), (1,0) and (1,1) of the matrix whatever
  its size. For labels and predictions over the classes 0 and 1, of equal lengths, it
  returns the two records when both classes occur in each split, and raises IndexError
  otherwise: the matrix of a split with a single class is 1x1, holding the number of rows.
\<close>

theorem matrizConfusion_needs_both_classes:
  assumes "predict x_train st = (pred_train, st1)" and "predict x_test st1 = (pred_test, st2)"
    and "length pred_train = length y_train" and "length pred_test = length y_test"
    and "set y_train \<union> set pred_train \<subseteq> {0, 1}" and "set y_test \<union> set pred_test \<subseteq> {0, 1}"
  shows "(set y_train \<union> set pred_train = {0, 1} \<and> set y_test \<union> set pred_test = {0, 1} \<longrightarrow>
            (\<exists>c_train c_test.
               matrizConfusion predict x_train y_train x_test y_test st = (Inr (c_train, c_test), st2))) \<and>
         (\<not> (set y_train \<union> set pred_train = {0, 1} \<and> set y_test \<union> set pred_test = {0, 1}) \<longrightarrow>
            matrizConfusion predict x_train y_train x_test y_test st = (Inl IndexError, st2)) \<and>
         (\<forall>a. set y_train \<union> set pred_train = {a} \<longrightarrow>
            confusion_matrix y_train pred_train = Inr [[length y_train]]) \<and>
         (\<forall>a. set y_test \<union> set pred_test = {a} \<longrightarrow>
            confusion_matrix y_test pred_test = Inr [[length y_test]])"
  using matrizConfusion_both [where predict = predict, OF assms(1-4)]
    matrizConfusion_small [where predict = predict, OF assms]
    confusion_matrix_single [OF assms(3)] confusion_matrix_single [OF assms(4)]
  by blast

theorem matrizConfusion_needs_both_classes_witness:
  "(\<lambda>x st. (x, st)) [0, 0 :: int] () = ([0, 0], ()) \<and>
   length [0, 0 :: int] = length [0, 0 :: int] \<and>
   set [0, 0] \<union> set [0, 0] \<subseteq> {0, 1 :: int} \<and> set [0, 0] \<union> set [0, 0] = {0 :: int} \<and>
   \<not> (set [0, 0] \<union> set [0, 0] = {0, 1 :: int} \<and> set [0, 1] \<union> set [0, 1] = {0, 1 :: int}) \<and>
   confusion_matrix [0, 0] [0, 0] = Inr [[2]] \<and>
   matrizConfusion (\<lambda>x st. (x, st)) [0, 0] [0, 0] [0, 1] [0, 1] () = (Inl IndexError, ()) \<and>
   set [0, 1] \<union> set [1, 0] = {0, 1 :: int} \<and>
   (\<exists>c_train c_test.
      matrizConfusion (\<lambda>x st. (x, st)) [1, 0] [0, 1] [0, 1] [0, 1] () = (Inr (c_train, c_test), ()))"
proof -
  have p0: "(\<lambda>x st. (x, st)) [0, 0 :: int] () = ([0, 0], ())"
    and p1: "(\<lambda>x st. (x, st)) [0, 1 :: int] () = ([0, 1], ())"
    and p2: "(\<lambda>x st. (x, st)) [1, 0 :: int] () = ([1, 0], ())" by simp_all
  have l: "length [0, 0 :: int] = length [0, 0 :: int]" "length [0, 1 :: int] = length [0, 1 :: int]"
    "length [1, 0 :: int] = length [0, 1 :: int]" by simp_all
  have b0: "set [0, 0] \<union> set [0, 0] \<subseteq> {0, 1 :: int}"
    and b1: "set [0, 1] \<union> set [0, 1] \<subseteq> {0, 1 :: int}"
    and b2: "set [0, 1] \<union> set [1, 0] \<subseteq> {0, 1 :: int}" by simp_all
  have s0: "set [0, 0] \<union> set [0, 0] = {0 :: int}"
    and s1: "set [0, 1] \<union> set [0, 1] = {0, 1 :: int}"
    and s2: "set [0, 1] \<union> set [1, 0] = {0, 1 :: int}" by auto
  have n: "\<not> (set [0, 0] \<union> set [0, 0] = {0, 1 :: int} \<and> set [0, 1] \<union> set [0, 1] = {0, 1 :: int})"
    by auto
  from matrizConfusion_needs_both_classes [of "\<lambda>x st. (x, st)", OF p0 p1 l(1) l(2) b0 b1]
    matrizConfusion_needs_both_classes [of "\<lambda>x st. (x, st)", OF p2 p1 l(3) l(2) b2 b1]
    p0 l(1) b0 s0 s1 s2 n
  show ?thesis by simp
qed

text \<open>
  C7. On a split in which a single class occurs, here a test split of two rows of class 0
  predicted as class 0 beside a training split with both classes, the matrix of the
  library is 1x1 and the function raises IndexError at the cell (0,1) of the test matrix:
  no record with the cells 2, 0, 0, 0 is returned for the test split.
\<close>

theorem matrizConfusion_single_class_raises:
  "confusion_matrix [0, 0] [0, 0] = Inr [[2]] \<and>
   matrizConfusion (\<lambda>x st. (x, st)) [0, 1] [0, 1] [0, 0] [0, 0] () = (Inl IndexError, ())"
proof -
  have "confusion_matrix [0, 0] [0, 0] = Inr [[length [0, 0 :: int]]]"
    by (rule confusion_matrix_single [where a = 0]) auto
  moreover have "matrizConfusion (\<lambda>x st. (x, st)) [0, 1] [0, 1] [0, 0] [0, 0] () = (Inl IndexError, ())"
    by (rule matrizConfusion_small [where pred_train = "[0, 1]" and pred_test = "[0, 0]" and ?st1.0 = "()"])
      auto
  ultimately show ?thesis by simp
qed

text \<open>
  Where both classes occur in each split, the records hold the four counts of each split
  under the nested keys, and the four counts of a split add up to its number of rows.
\<close>

lemma matrizConfusion_counts:
  assumes "predict x_train st = (pred_train, st1)" and "predict x_test st1 = (pred_test, st2)"
    and "length pred_train = length y_train" and "length pred_test = length y_test"
    and "set y_train \<union> set pred_train = {0, 1}" and "set y_test \<union> set pred_test = {0, 1}"
  shows "\<exists>c_train c_test.
     matrizConfusion predict x_train y_train x_test y_test st = (Inr (c_train, c_test), st2) \<and>
     predicted_0 (true_0 c_train) = int (count_pairs y_train pred_train (\<lambda>t p. t = 0 \<and> p = 0)) \<and>
     predicted_1 (true_0 c_train) = int (count_pairs y_train pred_train (\<lambda>t p. t = 0 \<and> p = 1)) \<and>
     predicted_0 (true_1 c_train) = int (count_pairs y_train pred_train (\<lambda>t p. t = 1 \<and> p = 0)) \<and>
     predicted_1 (true_1 c_train) = int (count_pairs y_train pred_train (\<lambda>t p. t = 1 \<and> p = 1)) \<and>
     predicted_0 (true_0 c_train) + predicted_1 (true_0 c_train) +
       predicted_0 (true_1 c_train) + predicted_1 (true_1 c_train) = int (length y_train) \<and>
     predicted_0 (true_0 c_test) + predicted_1 (true_0 c_test) +
       predicted_0 (true_1 c_test) + predicted_1 (true_1 c_test) = int (length y_test)"
proof -
  have "set y_train \<union> set pred_train \<subseteq> {0, 1}" "set y_test \<union> set pred_test \<subseteq> {0, 1}"
    using assms(5,6) by simp_all
  from count_pairs_sum [OF assms(3) this(1)] count_pairs_sum [OF assms(4) this(2)]
  show ?thesis
    unfolding matrizConfusion_both [where predict = predict, OF assms]
    by (intro exI conjI) (rule refl, simp_all del: of_nat_add add: of_nat_add [symmetric])
qed


section \<open>Claims about the persistence writer\<close>

lemma splitlines_Nil [simp]: "splitlines [] = []"
  by (simp add: splitlines_def)

lemma splitlines_line:
  "CHR 0x0A \<notin> set l \<Longrightarrow> splitlines (l @ CHR 0x0A # rest) = l # splitlines rest"
  by (induction l) (auto simp: splitlines_def)

lemma dirname_metrics_path [simp]: "dirname metrics_path = ''files/output''"
  by (simp add: dirname_def path_split_def rstrip_slash_def metrics_path_def)

lemma makedirs_output:
  assumes "fs_files fs ''files'' = None" and "fs_files fs ''files/output'' = None"
  shows "makedirs ''files/output'' fs =
         (Inr (), fs\<lparr>fs_dirs := insert ''files/output'' (insert ''files'' (fs_dirs fs))\<rparr>)"
  using assms
  by (simp add: makedirs.simps path_split_def rstrip_slash_def mkdir_def parent_ok_def
      dirname_def path_exists_def path_isdir_def ebind_def insert_absorb)

text \<open>
  C6. With no regular file in the place of the directories \<^verbatim>\<open>files\<close> and \<^verbatim>\<open>files/output\<close>
  and no directory in the place of the metrics file, the writer returns normally; the
  directory \<^verbatim>\<open>files/output\<close> exists afterwards; the metrics file holds the renderings of
  the four records in the order train metrics, test metrics, train matrix, test matrix,
  each followed by a line feed, whatever the file held before; no other file changes. When
  no rendering contains a line feed, the file has exactly these four lines.
\<close>

theorem guardarMetricas_writes_four_lines:
  assumes "fs_files fs ''files'' = None" and "fs_files fs ''files/output'' = None"
    and "metrics_path \<notin> fs_dirs fs"
  shows "\<exists>fs'. guardarMetricas dumps metrics_train metrics_test cm_metrics_train cm_metrics_test
                 metrics_path fs = (Inr (), fs') \<and>
     fs_files fs' metrics_path =
       Some (dumps metrics_train @ [CHR 0x0A] @ dumps metrics_test @ [CHR 0x0A] @
             dumps cm_metrics_train @ [CHR 0x0A] @ dumps cm_metrics_test @ [CHR 0x0A]) \<and>
     ''files/output'' \<in> fs_dirs fs' \<and> fs_dirs fs \<subseteq> fs_dirs fs' \<and>
     (\<forall>q. q \<noteq> metrics_path \<longrightarrow> fs_files fs' q = fs_files fs q) \<and>
     (CHR 0x0A \<notin> set (dumps metrics_train) \<and> CHR 0x0A \<notin> set (dumps metrics_test) \<and>
      CHR 0x0A \<notin> set (dumps cm_metrics_train) \<and> CHR 0x0A \<notin> set (dumps cm_metrics_test) \<longrightarrow>
        map_option splitlines (fs_files fs' metrics_path) =
          Some [dumps metrics_train, dumps metrics_test, dumps cm_metrics_train, dumps cm_metrics_test])"
proof -
  let ?fs1 = "fs\<lparr>fs_dirs := insert ''files/output'' (insert ''files'' (fs_dirs fs))\<rparr>"
  have open_ok: "open_w metrics_path ?fs1 = Inr (?fs1\<lparr>fs_files := (fs_files fs)(metrics_path \<mapsto> [])\<rparr>)"
    using assms(3)
    by (simp add: open_w_def parent_ok_def ebind_def path_isdir_def) (simp add: metrics_path_def)
  show ?thesis
    by (simp add: guardarMetricas_def makedirs_output [OF assms(1,2)] open_ok write_file_def
        splitlines_line subset_insertI2)
qed

theorem guardarMetricas_writes_four_lines_witness:
  "fs_files \<lparr>fs_dirs = {''files''}, fs_files = [metrics_path \<mapsto> ''old'']\<rparr> ''files'' = None \<and>
   fs_files \<lparr>fs_dirs = {''files''}, fs_files = [metrics_path \<mapsto> ''old'']\<rparr> ''files/output'' = None \<and>
   metrics_path \<notin> fs_dirs \<lparr>fs_dirs = {''files''}, fs_files = [metrics_path \<mapsto> ''old'']\<rparr> \<and>
   CHR 0x0A \<notin> set ''{1}'' \<and> CHR 0x0A \<notin> set ''{2}'' \<and> CHR 0x0A \<notin> set ''{3}'' \<and> CHR 0x0A \<notin> set ''{4}'' \<and>
   (\<exists>fs'. guardarMetricas (\<lambda>r. r) ''{1}'' ''{2}'' ''{3}'' ''{4}'' metrics_path
             \<lparr>fs_dirs = {''files''}, fs_files = [metrics_path \<mapsto> ''old'']\<rparr> = (Inr (), fs') \<and>
      ''files/output'' \<in> fs_dirs fs' \<and>
      map_option splitlines (fs_files fs' metrics_path) = Some [''{1}'', ''{2}'', ''{3}'', ''{4}''])"
proof -
  let ?fs = "\<lparr>fs_dirs = {''files''}, fs_files = [metrics_path \<mapsto> ''old'']\<rparr>"
  have h1: "fs_files ?fs ''files'' = None" and h2: "fs_files ?fs ''files/output'' = None"
    and h3: "metrics_path \<notin> fs_dirs ?fs"
    by (simp_all add: metrics_path_def)
  have nl: "CHR 0x0A \<notin> set ''{1}'' \<and> CHR 0x0A \<notin> set ''{2}'' \<and> CHR 0x0A \<notin> set ''{3}'' \<and>
            CHR 0x0A \<notin> set ''{4}''"
    by simp
  from guardarMetricas_writes_four_lines [OF h1 h2 h3, of "\<lambda>r. r" "''{1}''" "''{2}''" "''{3}''" "''{4}''"]
  obtain fs' where "guardarMetricas (\<lambda>r. r) ''{1}'' ''{2}'' ''{3}'' ''{4}'' metrics_path ?fs = (Inr (), fs')"
    and "''files/output'' \<in> fs_dirs fs'"
    and "map_option splitlines (fs_files fs' metrics_path) = Some [''{1}'', ''{2}'', ''{3}'', ''{4}'']"
    using nl by auto
  with h1 h2 h3 nl show ?thesis by blast
qed

text \<open>
  The parent directory is what the writer needs: a path without a directory part, which
  the parameter admits, makes \<^verbatim>\<open>os.makedirs\<close> raise on the empty name.
\<close>

lemma guardarMetricas_bare_name:
  "fst (guardarMetricas dumps a b c d ''metrics.json'' fs) = Inl FileNotFoundError"
  by (simp add: guardarMetricas_def makedirs.simps dirname_def path_split_def mkdir_def
      path_isdir_def)

end
